theory Spec2Isabelle
  imports Main
begin

section \<open>spawn-burst: the data model\<close>

text \<open>
  The program is a TypeScript wrapper (\<open>spawnBurstSync\<close>, \<open>spawnBurst\<close>,
  \<open>processResult\<close>) around a Perl program that \<open>buildCmdLine\<close> embeds. The Perl
  program is modelled call by call, with explicit state passing: the state holds the files
  it touches, the wall clock, the list of system-level calls it has issued, the wait status
  \<open>$?\<close> of its last child, and what it has written to its standard output and standard
  error. A \<open>die\<close> is the value \<open>Inl msg\<close>. What Perl and the files hold are byte strings
  (\<open>string\<close>); what the wrapper returns and throws are JavaScript strings (\<open>jstring\<close>, the
  list of their UTF-16 code units), which \<open>Buffer.prototype.toString\<close> makes of the bytes
  captured from the pipes. \<open>cacheMaxAgeSec\<close> is an integer.

  Outside the model: a \<open>spawn\<close> that cannot start Perl at all; a signal sent to the Perl
  process from outside (the kill that \<open>spawnSync\<close> itself sends when a pipe overflows is
  modelled); a command that itself touches the cache files; other processes acting on the
  files at any moment other than the wait for the sidecar lock (while this process holds
  that lock, the processes that follow the protocol do not write).
\<close>

type_synonym path = string

type_synonym jstring = "nat list"

abbreviation nl :: string where
  "nl \<equiv> [CHR 0x0A]"

record inode =
  content :: string
  mtime :: int
  perms :: nat

datatype lockop = LOCK_SH | LOCK_EX

text \<open>The calls of the Perl program, in the order of their first use in the source.\<close>

datatype event =
    Qr string
  | Open string path
  | Flock path lockop
  | Seek path
  | Close path
  | Chmod nat path
  | Truncate path
  | Print path string
  | Qx string
  | Stdout string
  | Exit nat

record world =
  files :: "path \<Rightarrow> inode option"
  now :: int
  log :: "event list"
  child :: int
  pipe_out :: string
  pipe_err :: string

text \<open>What \<open>qx{$cmd}\<close> yields: the wait status \<open>$?\<close>, the captured standard output, what
  the command wrote to the standard error it inherits, and the seconds it took.\<close>

record cmd_out =
  cstatus :: int
  cstdout :: string
  cstderr :: string
  csecs :: nat

text \<open>
  Everything the program takes from outside itself is a field of the environment:
  \<^item> \<open>qr\<close>: Perl's \<open>qr/$validator/s\<close>, which either fails to compile the pattern (\<open>Inl\<close>
    the message) or yields the test \<open>$text =~ $validator\<close>;
  \<^item> \<open>os_error\<close>: whether a call fails, given the calls issued so far, and then the text of
    \<open>$!\<close>;
  \<^item> \<open>others\<close> and \<open>waited\<close>: what other processes do to the files, and the seconds that
    pass, while this one is blocked in \<open>flock($singleton, LOCK_EX)\<close>;
  \<^item> \<open>shell\<close>: the outcome of a shell command started at a given time;
  \<^item> \<open>new_perms\<close>: the permission bits of a file that \<open>open\<close> creates (0666 less the umask);
  \<^item> \<open>pid\<close> (\<open>$$\<close>), \<open>localtime\<close> (\<open>scalar(localtime)\<close>) and \<open>errno\<close> (the number in \<open>$!\<close>
    when the interpreter dies);
  \<^item> \<open>toString\<close>: Node's \<open>Buffer.prototype.toString()\<close>, the UTF-8 decoding of a buffer
    into a JavaScript string.
\<close>

record env =
  qr :: "string \<Rightarrow> string + (string \<Rightarrow> bool)"
  os_error :: "event list \<Rightarrow> event \<Rightarrow> string option"
  others :: "(path \<Rightarrow> inode option) \<Rightarrow> (path \<Rightarrow> inode option)"
  waited :: nat
  shell :: "string \<Rightarrow> int \<Rightarrow> cmd_out"
  new_perms :: nat
  pid :: nat
  localtime :: "int \<Rightarrow> string"
  errno :: nat
  toString :: "string \<Rightarrow> jstring"

text \<open>\<open>SpawnBurstOptions\<close>.\<close>

record options =
  cmd :: string
  cacheFile :: path
  cacheMaxAgeSec :: int
  validator :: string

text \<open>\<open>Result\<close>: \<open>status\<close> is \<open>number | null\<close>.\<close>

record result =
  status :: "int option"
  stdout :: string
  stderr :: string

section \<open>Decimal rendering and trimming\<close>

fun show_nat :: "nat \<Rightarrow> string" where
  "show_nat n =
     (if n < 10 then [''0123456789'' ! n]
      else show_nat (n div 10) @ [''0123456789'' ! (n mod 10)])"

declare show_nat.simps [simp del]

definition show_int :: "int \<Rightarrow> string" where
  "show_int i = (if i < 0 then CHR ''-'' # show_nat (nat (- i)) else show_nat (nat i))"

text \<open>A template literal's fixed text, and a number rendered in it, as a JavaScript
  string.\<close>

definition ascii :: "string \<Rightarrow> jstring" where
  "ascii s = map of_char s"

text \<open>The code units that \<open>String.prototype.trim\<close> removes: the \<open>WhiteSpace\<close> of
  ECMAScript (tab, vertical tab, form feed, space, no-break space, the byte order mark and
  the space separators of Unicode) and its \<open>LineTerminator\<close> (line feed, carriage return,
  line and paragraph separator).\<close>

definition js_space :: "nat \<Rightarrow> bool" where
  "js_space u =
     (u \<in> set [0x09, 0x0A, 0x0B, 0x0C, 0x0D, 0x20, 0xA0, 0x1680, 0x2028, 0x2029, 0x202F,
               0x205F, 0x3000, 0xFEFF] \<or>
      (0x2000 \<le> u \<and> u \<le> 0x200A))"

definition trim :: "jstring \<Rightarrow> jstring" where
  "trim s = rev (dropWhile js_space (rev (dropWhile js_space s)))"

section \<open>The Perl program\<close>

definition die :: "string \<Rightarrow> world \<Rightarrow> (string + 'a) \<times> world" where
  "die msg w = (Inl msg, w\<lparr>pipe_err := pipe_err w @ msg\<rparr>)"

definition then_do ::
  "(world \<Rightarrow> (string + 'a) \<times> world) \<Rightarrow> ('a \<Rightarrow> world \<Rightarrow> (string + 'b) \<times> world) \<Rightarrow>
   world \<Rightarrow> (string + 'b) \<times> world" where
  "then_do m k w = (case m w of (Inl msg, w') \<Rightarrow> (Inl msg, w') | (Inr x, w') \<Rightarrow> k x w')"

text \<open>\<open>call(...) or die(msg)\<close>: the call is logged; when it fails the program dies with the
  message built from \<open>$!\<close>, otherwise the call's effect takes place.\<close>

definition or_die ::
  "env \<Rightarrow> event \<Rightarrow> (world \<Rightarrow> world) \<Rightarrow> (string \<Rightarrow> string) \<Rightarrow> world \<Rightarrow> (string + unit) \<times> world" where
  "or_die e ev effect msg w =
     (case os_error e (log w) ev of
        Some err \<Rightarrow> die (msg err) (w\<lparr>log := log w @ [ev]\<rparr>)
      | None \<Rightarrow> (Inr (), effect (w\<lparr>log := log w @ [ev]\<rparr>)))"

text \<open>The modes \<open>">>"\<close> and \<open>"+>>"\<close> create a missing file, empty, and leave an existing one
  as it is.\<close>

definition create_if_absent :: "env \<Rightarrow> path \<Rightarrow> world \<Rightarrow> world" where
  "create_if_absent e f w =
     (case files w f of
        Some d \<Rightarrow> w
      | None \<Rightarrow> w\<lparr>files := (files w)(f \<mapsto> \<lparr>content = [], mtime = now w, perms = new_perms e\<rparr>)\<rparr>)"

definition slurp :: "path \<Rightarrow> world \<Rightarrow> string" where
  "slurp f w = (case files w f of Some d \<Rightarrow> content d | None \<Rightarrow> [])"

definition stat_mtime :: "path \<Rightarrow> world \<Rightarrow> int" where
  "stat_mtime f w = (case files w f of Some d \<Rightarrow> mtime d | None \<Rightarrow> now w)"

text \<open>\<open>$content =~ /^([^\n]+)\n(.*)$/s\<close>: a non-empty first line, a newline, and all the
  rest.\<close>

definition parse_record :: "string \<Rightarrow> (string \<times> string) option" where
  "parse_record c =
     (let writer = takeWhile (\<lambda>x. x \<noteq> CHR 0x0A) c;
          rest = dropWhile (\<lambda>x. x \<noteq> CHR 0x0A) c
      in if writer = [] \<or> rest = [] then None else Some (writer, tl rest))"

definition readCache :: "env \<Rightarrow> path \<Rightarrow> world \<Rightarrow> (string + string \<times> string \<times> int) \<times> world" where
  "readCache e f =
     then_do (or_die e (Open ''+>>'' f) (create_if_absent e f)
                (\<lambda>err. ''open read '' @ f @ '': '' @ err @ nl)) (\<lambda>_.
     then_do (or_die e (Flock f LOCK_SH) (\<lambda>w. w)
                (\<lambda>err. ''flock '' @ f @ '' LOCK_SH: '' @ err @ nl)) (\<lambda>_.
     then_do (or_die e (Seek f) (\<lambda>w. w)
                (\<lambda>err. ''seek '' @ f @ '': '' @ err @ nl)) (\<lambda>_ w.
     let text = slurp f w in
     if text = [] then (Inr ([], [], 0), w)
     else case parse_record text of
            None \<Rightarrow> die (''invalid format of '' @ f @ nl) w
          | Some (writer, data) \<Rightarrow>
              (Inr (writer, data, now w - stat_mtime f w), w\<lparr>log := log w @ [Close f]\<rparr>))))"

definition set_perms :: "nat \<Rightarrow> path \<Rightarrow> world \<Rightarrow> world" where
  "set_perms p f w =
     (case files w f of
        Some d \<Rightarrow> w\<lparr>files := (files w)(f \<mapsto> d\<lparr>perms := p\<rparr>)\<rparr>
      | None \<Rightarrow> w)"

definition set_content :: "string \<Rightarrow> path \<Rightarrow> world \<Rightarrow> world" where
  "set_content c f w =
     (case files w f of
        Some d \<Rightarrow> w\<lparr>files := (files w)(f \<mapsto> d\<lparr>content := c, mtime := now w\<rparr>)\<rparr>
      | None \<Rightarrow> w)"

text \<open>\<open>print $fh ...\<close> on a handle opened for appending; its outcome is not checked by the
  source, so a failed \<open>print\<close> writes nothing and the program goes on.\<close>

definition print_fh :: "env \<Rightarrow> path \<Rightarrow> string \<Rightarrow> world \<Rightarrow> world" where
  "print_fh e f text w =
     (case os_error e (log w) (Print f text) of
        Some err \<Rightarrow> w\<lparr>log := log w @ [Print f text]\<rparr>
      | None \<Rightarrow> set_content (slurp f w @ text) f (w\<lparr>log := log w @ [Print f text]\<rparr>))"

text \<open>Octal 0600.\<close>

definition owner_rw :: nat where
  "owner_rw = 6 * 64"

definition writeCache :: "env \<Rightarrow> path \<Rightarrow> string \<Rightarrow> world \<Rightarrow> (string + unit) \<times> world" where
  "writeCache e f data =
     then_do (or_die e (Open ''+>>'' f) (create_if_absent e f)
                (\<lambda>err. ''open write '' @ f @ '': '' @ err @ nl)) (\<lambda>_.
     then_do (or_die e (Chmod owner_rw f) (set_perms owner_rw f)
                (\<lambda>err. ''chmod '' @ f @ '': '' @ err @ nl)) (\<lambda>_.
     then_do (or_die e (Flock f LOCK_EX) (\<lambda>w. w)
                (\<lambda>err. ''flock '' @ f @ '' LOCK_EX: '' @ err @ nl)) (\<lambda>_.
     then_do (or_die e (Seek f) (\<lambda>w. w)
                (\<lambda>err. ''seek '' @ f @ '': '' @ err @ nl)) (\<lambda>_.
     then_do (or_die e (Truncate f) (set_content [] f)
                (\<lambda>err. ''truncate '' @ f @ '': '' @ err @ nl)) (\<lambda>_ w.
     let w1 = print_fh e f (show_nat (pid e) @ '': '' @ localtime e (now w) @ nl @ data) w
     in (Inr (), w1\<lparr>log := log w1 @ [Close f]\<rparr>))))))"

text \<open>\<open>qr/$validator/s\<close>: an ill-formed pattern kills the program before it touches a file.\<close>

definition compile :: "env \<Rightarrow> string \<Rightarrow> world \<Rightarrow> (string + (string \<Rightarrow> bool)) \<times> world" where
  "compile e pat w =
     (case qr e pat of
        Inl msg \<Rightarrow> die msg (w\<lparr>log := log w @ [Qr pat]\<rparr>)
      | Inr v \<Rightarrow> (Inr v, w\<lparr>log := log w @ [Qr pat]\<rparr>))"

text \<open>What happens while \<open>flock($singleton, LOCK_EX)\<close> blocks.\<close>

definition wait_for_lock :: "env \<Rightarrow> world \<Rightarrow> world" where
  "wait_for_lock e w = w\<lparr>files := others e (files w), now := now w + int (waited e)\<rparr>"

definition qx :: "env \<Rightarrow> string \<Rightarrow> world \<Rightarrow> (string + cmd_out) \<times> world" where
  "qx e c w =
     (let r = shell e c (now w)
      in (Inr r, w\<lparr>now := now w + int (csecs r), child := cstatus r,
                   pipe_err := pipe_err w @ cstderr r, log := log w @ [Qx c]\<rparr>))"

definition print_stdout :: "string \<Rightarrow> world \<Rightarrow> (string + unit) \<times> world" where
  "print_stdout s w = (Inr (), w\<lparr>pipe_out := pipe_out w @ s, log := log w @ [Stdout s]\<rparr>)"

definition perl_exit :: "nat \<Rightarrow> world \<Rightarrow> (string + unit) \<times> world" where
  "perl_exit n w = (Inr (), w\<lparr>log := log w @ [Exit n]\<rparr>)"

definition return :: "'a \<Rightarrow> world \<Rightarrow> (string + 'a) \<times> world" where
  "return x w = (Inr x, w)"

text \<open>
  The program proper (lines 127 to 158 of the source), in the three blocks that its own
  comments mark. \<open>become_singleton\<close> is "Become the only process running on this machine":
  it opens the sidecar and blocks in \<open>flock\<close>; the lock is held until the process ends.
\<close>

definition become_singleton :: "env \<Rightarrow> path \<Rightarrow> world \<Rightarrow> (string + unit) \<times> world" where
  "become_singleton e f =
     (let singletonFile = f @ ''.lock'' in
      then_do (or_die e (Open ''>>'' singletonFile) (create_if_absent e singletonFile)
                 (\<lambda>err. ''open '' @ singletonFile @ '': '' @ err @ nl)) (\<lambda>_.
      or_die e (Flock singletonFile LOCK_EX) (wait_for_lock e)
        (\<lambda>err. ''flock LOCK_EX: '' @ err @ nl)))"

text \<open>\<open>decide\<close> is everything after the second \<open>readCache\<close>: the reuse test with its
  \<open>exit(0)\<close>, the run test, and the final \<open>print $data\<close>.\<close>

definition decide ::
  "env \<Rightarrow> options \<Rightarrow> (string \<Rightarrow> bool) \<Rightarrow> string \<Rightarrow> string \<times> string \<times> int \<Rightarrow>
   world \<Rightarrow> (string + unit) \<times> world" where
  "decide e opts v oldWriter = (\<lambda>(writer, data, age).
     if data \<noteq> [] \<and> v data \<and> cacheMaxAgeSec opts > 0 \<and> age < cacheMaxAgeSec opts then
       then_do (print_stdout data) (\<lambda>_. perl_exit 0)
     else
       then_do
         (if data = [] \<or> \<not> v data \<or> writer = oldWriter then
            then_do (qx e (cmd opts)) (\<lambda>r.
              if cstatus r \<noteq> 0 then
                die (''command exited with nonzero status '' @ show_int (cstatus r) @ nl)
              else if \<not> v (cstdout r) then
                die (''response is not valid: '' @ cstdout r @ nl)
              else
                then_do (writeCache e (cacheFile opts) (cstdout r)) (\<lambda>_. return (cstdout r)))
          else return data)
         print_stdout)"

text \<open>The part of the program before \<open>decide\<close>: it compiles the validator, takes the
  snapshot before the lock (of which only the writer is kept, \<open>$oldWriter\<close>), becomes the
  singleton and takes the snapshot after the lock.\<close>

definition snapshots ::
  "env \<Rightarrow> options \<Rightarrow> world \<Rightarrow>
   (string + (string \<Rightarrow> bool) \<times> string \<times> string \<times> string \<times> int) \<times> world" where
  "snapshots e opts =
     then_do (compile e (validator opts)) (\<lambda>v.
     then_do (readCache e (cacheFile opts)) (\<lambda>(oldWriter, _, _).
     then_do (become_singleton e (cacheFile opts)) (\<lambda>_.
     then_do (readCache e (cacheFile opts)) (\<lambda>(writer, data, age).
     return (v, oldWriter, writer, data, age)))))"

definition perl_main :: "env \<Rightarrow> options \<Rightarrow> world \<Rightarrow> (string + unit) \<times> world" where
  "perl_main e opts =
     then_do (snapshots e opts) (\<lambda>(v, oldWriter, s1). decide e opts v oldWriter s1)"

section \<open>The TypeScript wrapper\<close>

text \<open>
  The exit status of a Perl program that dies, as its parent sees it. \<open>perldoc -f die\<close>
  gives \<open>exit $! if $!; exit $? >> 8 if $? >> 8; exit 255\<close>; the interpreter makes each
  test on the low eight bits, which are all that the parent receives of an exit status. So
  the status lies between 1 and 255: a \<open>$?\<close> of \<open>-1\<close> with \<open>$!\<close> unset gives 255.
\<close>

definition die_status :: "nat \<Rightarrow> int \<Rightarrow> int" where
  "die_status en ch =
     (if int en mod 256 \<noteq> 0 then int en mod 256
      else if (ch div 256) mod 256 \<noteq> 0 then (ch div 256) mod 256
      else 255)"

text \<open>\<open>spawn(cmdLine[0], cmdLine.slice(1), ...)\<close>, as \<open>spawnBurst\<close> uses it: a fresh Perl
  process runs the program on the host's files; its pipes and exit status make the
  \<open>Result\<close>. \<open>spawn\<close> puts no bound on what it collects from the pipes.\<close>

definition fresh :: "world \<Rightarrow> world" where
  "fresh w = w\<lparr>log := [], child := 0, pipe_out := [], pipe_err := []\<rparr>"

definition spawn_perl :: "env \<Rightarrow> options \<Rightarrow> world \<Rightarrow> result \<times> world" where
  "spawn_perl e opts w =
     (case perl_main e opts (fresh w) of
        (Inl msg, w') \<Rightarrow>
          (\<lparr>status = Some (die_status (errno e) (child w')),
            stdout = pipe_out w', stderr = pipe_err w'\<rparr>, w')
      | (Inr u, w') \<Rightarrow>
          (\<lparr>status = Some 0, stdout = pipe_out w', stderr = pipe_err w'\<rparr>, w'))"

text \<open>\<open>`${res.status}`\<close>.\<close>

definition show_status :: "int option \<Rightarrow> string" where
  "show_status st = (case st of None \<Rightarrow> ''null'' | Some n \<Rightarrow> show_int n)"

text \<open>
  \<open>spawnSync(cmdLine[0], cmdLine.slice(1), ...)\<close>, as \<open>spawnBurstSync\<close> uses it. It is called
  without \<open>maxBuffer\<close>, so the default of 1024 * 1024 bytes applies to each pipe: as soon
  as more has arrived on one of them, \<open>spawnSync\<close> kills the Perl process and returns a
  \<open>Result\<close> whose \<open>status\<close> is \<open>null\<close> and whose output is truncated. The standard error of
  Perl grows while the command runs (the command inherits it) and when Perl dies; its
  standard output grows only in the last \<open>print\<close>. So the kill comes either while the
  command runs, and then the world is that of the \<open>qx\<close>, or at the end of the program.
  The model lets the kill arrive as soon as the limit is passed; a process whose excess
  over the limit still fits in the buffer of the pipe can in fact run on, or exit, before
  \<open>spawnSync\<close> has read that far.
\<close>

definition maxBuffer :: nat where
  "maxBuffer = 1024 * 1024"

definition spawnSync_perl :: "env \<Rightarrow> options \<Rightarrow> world \<Rightarrow> result \<times> world" where
  "spawnSync_perl e opts w =
     (case spawn_perl e opts w of (res, w') \<Rightarrow>
        (let wq = snd (qx e (cmd opts) (snd (snapshots e opts (fresh w))))
         in if Qx (cmd opts) \<in> set (log w') \<and> maxBuffer < length (pipe_err wq) then
              (\<lparr>status = None, stdout = [], stderr = take maxBuffer (pipe_err wq)\<rparr>, wq)
            else if maxBuffer < length (stdout res) \<or> maxBuffer < length (stderr res) then
              (\<lparr>status = None, stdout = take maxBuffer (stdout res),
                stderr = take maxBuffer (stderr res)\<rparr>, w')
            else (res, w')))"

text \<open>\<open>processResult\<close>: \<open>Inl\<close> is the message of the \<open>Error\<close> thrown.\<close>

definition processResult :: "env \<Rightarrow> string \<Rightarrow> result \<Rightarrow> jstring + jstring" where
  "processResult e func res =
     (if status res \<noteq> Some 0 then
        (let err = trim (toString e (stderr res))
         in Inl (ascii func @ ascii ''() failed with status '' @
                 ascii (show_status (status res)) @ ascii '': '' @
                 (if err = [] then ascii ''<empty stderr>'' else err)))
      else Inr (toString e (stdout res)))"

text \<open>\<open>processError\<close> rethrows the error it is given after annotating its \<open>stack\<close>; the
  message, which is all the model keeps of an \<open>Error\<close>, is untouched.\<close>

definition spawnBurstSync :: "env \<Rightarrow> options \<Rightarrow> world \<Rightarrow> (jstring + jstring) \<times> world" where
  "spawnBurstSync e opts w =
     (case spawnSync_perl e opts w of (res, w') \<Rightarrow> (processResult e ''spawnBurstSync'' res, w'))"

definition spawnBurst :: "env \<Rightarrow> options \<Rightarrow> world \<Rightarrow> (jstring + jstring) \<times> world" where
  "spawnBurst e opts w =
     (case spawn_perl e opts w of (res, w') \<Rightarrow> (processResult e ''spawnBurst'' res, w'))"

section \<open>A burst of invocations\<close>

text \<open>
  Concurrent invocations of \<open>spawnBurst\<close> with the same options: all of them start on the
  same world \<open>w\<close>, where each takes its snapshot before the lock, and they get the sidecar
  lock one after the other. For the one that gets the lock, what the others have done
  during its wait is what the holders before it have done: the files that the previous
  holder left (\<open>prev\<close>) are laid over its own, and the clock is where the previous holder
  left it. The first to get the lock has waited for nobody (\<open>prev = w\<close>). Each invocation
  is a Perl process of its own, the \<open>k\<close>-th with process id \<open>pid e + k\<close>.
\<close>

definition behind :: "env \<Rightarrow> world \<Rightarrow> world \<Rightarrow> nat \<Rightarrow> env" where
  "behind e w prev k =
     e\<lparr>others := (\<lambda>fs. fs ++ files prev), waited := nat (now prev - now w), pid := pid e + k\<rparr>"


text \<open>How often a call was issued in a burst, all invocations taken together.\<close>

definition occurrences :: "event \<Rightarrow> ((jstring + jstring) \<times> world) list \<Rightarrow> nat" where
  "occurrences ev rs = length (filter (\<lambda>x. x = ev) (concat (map (\<lambda>x. log (snd x)) rs)))"

section \<open>Observations\<close>

text \<open>The content and the modification time of a file, \<open>None\<close> when it does not exist.\<close>

definition content_mtime :: "path \<Rightarrow> world \<Rightarrow> (string \<times> int) option" where
  "content_mtime f w = map_option (\<lambda>d. (content d, mtime d)) (files w f)"

text \<open>The calls that neither run the command, nor write to the data file or to the
  standard output, nor end the process: all that the program issues up to and including the
  second \<open>readCache\<close>.\<close>

fun is_setup :: "event \<Rightarrow> bool" where
  "is_setup (Qr p) = True"
| "is_setup (Open m f) = True"
| "is_setup (Flock f l) = True"
| "is_setup (Seek f) = True"
| "is_setup (Close f) = True"
| "is_setup ev = False"

section \<open>Concrete runs\<close>

text \<open>
  An environment, options and worlds for the concrete runs below. The regular-expression
  engine of the environment knows two patterns, as Perl matches them under \<open>/s\<close>: \<open>.+\<close> is
  found in exactly the non-empty texts and \<open>.*\<close> in every text; it rejects every other
  pattern, and no concrete run uses one. Its \<open>toString\<close> is the UTF-8 decoding of buffers
  that hold only ASCII bytes, as those of the concrete runs do. The data file of
  \<open>sample_world\<close> has mode 0644 (420), that of a file created under the usual umask.
\<close>

definition sample_qr :: "string \<Rightarrow> string + (string \<Rightarrow> bool)" where
  "sample_qr pat =
     (if pat = ''.+'' then Inr (\<lambda>t. t \<noteq> [])
      else if pat = ''.*'' then Inr (\<lambda>t. True)
      else Inl (''pattern not in the table: '' @ pat @ nl))"

definition sample_env :: env where
  "sample_env =
     \<lparr>qr = sample_qr, os_error = (\<lambda>l ev. None), others = (\<lambda>fs. fs), waited = 0,
      shell = (\<lambda>c t. \<lparr>cstatus = 0, cstdout = ''ok'' @ nl, cstderr = [], csecs = 1\<rparr>),
      new_perms = 420, pid = 7, localtime = (\<lambda>t. ''Mon''),
      errno = 0, toString = ascii\<rparr>"

definition sample_opts :: options where
  "sample_opts = \<lparr>cmd = ''echo ok'', cacheFile = ''c'', cacheMaxAgeSec = 0, validator = ''.+''\<rparr>"

definition sample_world :: world where
  "sample_world =
     \<lparr>files = [''c'' \<mapsto> \<lparr>content = ''5: s'' @ nl @ ''old'', mtime = 90, perms = 420\<rparr>],
      now = 100, log = [], child = 0, pipe_out = [], pipe_err = []\<rparr>"

text \<open>The same options with a staleness window of thirty seconds; a world whose data file
  is empty; a command that prints nothing; options whose validator matches the empty
  string, and options whose validator does not.\<close>

definition stale_opts :: options where
  "stale_opts = sample_opts\<lparr>cacheMaxAgeSec := 30\<rparr>"

definition empty_world :: world where
  "empty_world =
     \<lparr>files = [''c'' \<mapsto> \<lparr>content = [], mtime = 90, perms = 420\<rparr>],
      now = 100, log = [], child = 0, pipe_out = [], pipe_err = []\<rparr>"

definition silent_env :: env where
  "silent_env = sample_env\<lparr>shell :=
     (\<lambda>c t. \<lparr>cstatus = 0, cstdout = [], cstderr = [], csecs = 1\<rparr>)\<rparr>"

definition lax_opts :: options where
  "lax_opts = \<lparr>cmd = ''true'', cacheFile = ''c'', cacheMaxAgeSec = 0, validator = ''.*''\<rparr>"

definition strict_opts :: options where
  "strict_opts = \<lparr>cmd = ''true'', cacheFile = ''c'', cacheMaxAgeSec = 0, validator = ''.+''\<rparr>"

text \<open>An environment in which another process rewrites the data file during the wait for
  the lock; one in which \<open>flock\<close> on the data file fails; one whose command exits with
  status 1 after writing to its standard error; a world whose data file has no newline;
  and the world that the program reaches from \<open>sample_world\<close> in the first of these
  environments after its second \<open>readCache\<close>.\<close>

definition busy_env :: env where
  "busy_env = sample_env\<lparr>others :=
     (\<lambda>fs. fs(''c'' \<mapsto> \<lparr>content = ''7: t'' @ nl @ ''new'', mtime = 103, perms = 384\<rparr>)),
     waited := 5\<rparr>"

definition jammed_env :: env where
  "jammed_env = sample_env\<lparr>os_error :=
     (\<lambda>l ev. if ev = Flock ''c'' LOCK_EX then Some ''Interrupted system call'' else None)\<rparr>"

definition failing_env :: env where
  "failing_env = sample_env\<lparr>shell :=
     (\<lambda>c t. \<lparr>cstatus = 256, cstdout = [], cstderr = ''bad'' @ nl, csecs = 1\<rparr>)\<rparr>"

definition garbage_world :: world where
  "garbage_world =
     \<lparr>files = [''c'' \<mapsto> \<lparr>content = ''garbage'', mtime = 90, perms = 384\<rparr>],
      now = 100, log = [], child = 0, pipe_out = [], pipe_err = []\<rparr>"

text \<open>A world without any file; a command whose output is twice \<open>maxBuffer\<close>.\<close>

definition bare_world :: world where
  "bare_world =
     \<lparr>files = (\<lambda>f. None), now = 100, log = [], child = 0, pipe_out = [], pipe_err = []\<rparr>"

definition flood :: string where
  "flood = replicate (2 * maxBuffer) (CHR ''x'')"

definition flood_env :: env where
  "flood_env = sample_env\<lparr>shell :=
     (\<lambda>c t. \<lparr>cstatus = 0, cstdout = flood, cstderr = [], csecs = 1\<rparr>)\<rparr>"

definition busy_world3 :: world where
  "busy_world3 =
     \<lparr>files = [''c.lock'' \<mapsto> \<lparr>content = [], mtime = 100, perms = 420\<rparr>,
               ''c'' \<mapsto> \<lparr>content = ''7: t'' @ nl @ ''new'', mtime = 103, perms = 384\<rparr>],
      now = 105,
      log = [Qr ''.+'', Open ''+>>'' ''c'', Flock ''c'' LOCK_SH, Seek ''c'', Close ''c'',
             Open ''>>'' ''c.lock'', Flock ''c.lock'' LOCK_EX,
             Open ''+>>'' ''c'', Flock ''c'' LOCK_SH, Seek ''c'', Close ''c''],
      child = 0, pipe_out = [], pipe_err = []\<rparr>"

section \<open>Stepping through the program\<close>

text \<open>
  Case rules for sequencing, what each helper leaves of the state, and what each block of
  the program does on each of its paths.
\<close>

lemma then_do_cases:
  assumes "then_do m k w = (r, w')"
  obtains (died) msg where "m w = (Inl msg, w')" and "r = Inl msg"
        | (went) x w1 where "m w = (Inr x, w1)" and "k x w1 = (r, w')"
  using assms by (auto simp: then_do_def split: prod.splits sum.splits)

lemma create_if_absent_proj [simp]:
  "log (create_if_absent e f w) = log w"
  "now (create_if_absent e f w) = now w"
  "child (create_if_absent e f w) = child w"
  "pipe_out (create_if_absent e f w) = pipe_out w"
  "pipe_err (create_if_absent e f w) = pipe_err w"
  "g \<noteq> f \<Longrightarrow> files (create_if_absent e f w) g = files w g"
  "files w f = Some d \<Longrightarrow> files (create_if_absent e f w) = files w"
  "files (create_if_absent e f w) f =
     Some (case files w f of Some d \<Rightarrow> d
           | None \<Rightarrow> \<lparr>content = [], mtime = now w, perms = new_perms e\<rparr>)"
  by (auto simp: create_if_absent_def split: option.splits)

lemma set_perms_proj [simp]:
  "log (set_perms p f w) = log w"
  "now (set_perms p f w) = now w"
  "child (set_perms p f w) = child w"
  "pipe_out (set_perms p f w) = pipe_out w"
  "pipe_err (set_perms p f w) = pipe_err w"
  "g \<noteq> f \<Longrightarrow> files (set_perms p f w) g = files w g"
  "files (set_perms p f w) f = map_option (\<lambda>d. d\<lparr>perms := p\<rparr>) (files w f)"
  by (auto simp: set_perms_def split: option.splits)

lemma set_content_proj [simp]:
  "log (set_content c f w) = log w"
  "now (set_content c f w) = now w"
  "child (set_content c f w) = child w"
  "pipe_out (set_content c f w) = pipe_out w"
  "pipe_err (set_content c f w) = pipe_err w"
  "g \<noteq> f \<Longrightarrow> files (set_content c f w) g = files w g"
  "files (set_content c f w) f = map_option (\<lambda>d. d\<lparr>content := c, mtime := now w\<rparr>) (files w f)"
  by (auto simp: set_content_def split: option.splits)

lemma print_fh_proj [simp]:
  "log (print_fh e f t w) = log w @ [Print f t]"
  "now (print_fh e f t w) = now w"
  "child (print_fh e f t w) = child w"
  "pipe_out (print_fh e f t w) = pipe_out w"
  "pipe_err (print_fh e f t w) = pipe_err w"
  "g \<noteq> f \<Longrightarrow> files (print_fh e f t w) g = files w g"
  "files (print_fh e f t w) f =
     (case os_error e (log w) (Print f t) of
        Some err \<Rightarrow> files w f
      | None \<Rightarrow> map_option (\<lambda>d. d\<lparr>content := slurp f w @ t, mtime := now w\<rparr>) (files w f))"
  by (auto simp: print_fh_def split: option.splits)

lemma wait_for_lock_proj [simp]:
  "log (wait_for_lock e w) = log w"
  "child (wait_for_lock e w) = child w"
  "pipe_out (wait_for_lock e w) = pipe_out w"
  "pipe_err (wait_for_lock e w) = pipe_err w"
  "files (wait_for_lock e w) = others e (files w)"
  "now (wait_for_lock e w) = now w + int (waited e)"
  by (auto simp: wait_for_lock_def)

lemma lock_path_neq [simp]: "f @ ''.lock'' \<noteq> f" "f \<noteq> f @ ''.lock''"
proof -
  have "length (f @ ''.lock'') \<noteq> length f" by simp
  then show "f @ ''.lock'' \<noteq> f" by metis
  then show "f \<noteq> f @ ''.lock''" by metis
qed

lemma slurp_proj [simp]: "slurp f (w\<lparr>log := l\<rparr>) = slurp f w"
  by (simp add: slurp_def)

lemma readCache_existing:
  "files w f = Some d \<Longrightarrow>
   (case readCache e f w of (r, w') \<Rightarrow>
      files w' = files w \<and> now w' = now w \<and> child w' = child w \<and> pipe_out w' = pipe_out w)"
  by (simp add: readCache_def then_do_def or_die_def die_def Let_def
           split: option.splits prod.splits)

lemma readCache_log:
  "(case readCache e f w of (r, w') \<Rightarrow>
      \<exists>evs. log w' = log w @ evs \<and> set evs \<subseteq> {Open ''+>>'' f, Flock f LOCK_SH, Seek f, Close f})"
  by (simp add: readCache_def then_do_def or_die_def die_def Let_def
           split: option.splits prod.splits)

lemma writeCache_Inl_aux:
  "files w f = Some d \<Longrightarrow>
   (case writeCache e f data w of (Inl m, w') \<Rightarrow> content_mtime f w' = content_mtime f w | (Inr u, w') \<Rightarrow> True)"
  by (simp add: writeCache_def then_do_def or_die_def die_def content_mtime_def Let_def split: option.splits)

lemma writeCache_Inr_aux:
  "(case writeCache e f data w of (Inl m, w') \<Rightarrow> True
     | (Inr u, w') \<Rightarrow> map_option perms (files w' f) = Some owner_rw \<and>
          log w' = log w @ [Open ''+>>'' f, Chmod owner_rw f, Flock f LOCK_EX, Seek f, Truncate f,
            Print f (show_nat (pid e) @ '': '' @ localtime e (now w) @ nl @ data), Close f])"
  by (simp add: writeCache_def then_do_def or_die_def die_def content_mtime_def Let_def option.map_comp comp_def split: option.splits)


lemma become_singleton_existing:
  "files w f = Some d \<Longrightarrow> (\<And>fs. others e fs f = fs f) \<Longrightarrow>
   (case become_singleton e f w of (r, w') \<Rightarrow> files w' f = Some d)"
  by (simp add: become_singleton_def then_do_def or_die_def die_def Let_def
           split: option.splits prod.splits)

lemma become_singleton_log:
  "(case become_singleton e f w of (r, w') \<Rightarrow>
      \<exists>evs. log w' = log w @ evs \<and>
        set evs \<subseteq> {Open ''>>'' (f @ ''.lock''), Flock (f @ ''.lock'') LOCK_EX})"
  by (simp add: become_singleton_def then_do_def or_die_def die_def Let_def
           split: option.splits prod.splits)

text \<open>\<open>decide\<close>, path by path.\<close>

lemma decide_reuse:
  "da \<noteq> [] \<Longrightarrow> v da \<Longrightarrow> 0 < cacheMaxAgeSec opts \<Longrightarrow> ag < cacheMaxAgeSec opts \<Longrightarrow>
   decide e opts v ow (wr, da, ag) w =
     (Inr (), w\<lparr>pipe_out := pipe_out w @ da, log := log w @ [Stdout da, Exit 0]\<rparr>)"
  by (simp add: decide_def then_do_def print_stdout_def perl_exit_def)

lemma decide_coalesce:
  "da \<noteq> [] \<Longrightarrow> v da \<Longrightarrow> \<not> (0 < cacheMaxAgeSec opts \<and> ag < cacheMaxAgeSec opts) \<Longrightarrow>
   wr \<noteq> ow \<Longrightarrow>
   decide e opts v ow (wr, da, ag) w =
     (Inr (), w\<lparr>pipe_out := pipe_out w @ da, log := log w @ [Stdout da]\<rparr>)"
  by (auto simp: decide_def then_do_def print_stdout_def return_def)

lemma decide_run_nonzero:
  "\<not> (da \<noteq> [] \<and> v da \<and> 0 < cacheMaxAgeSec opts \<and> ag < cacheMaxAgeSec opts) \<Longrightarrow>
   da = [] \<or> \<not> v da \<or> wr = ow \<Longrightarrow>
   cstatus (shell e (cmd opts) (now w)) \<noteq> 0 \<Longrightarrow>
   decide e opts v ow (wr, da, ag) w =
     die (''command exited with nonzero status '' @
          show_int (cstatus (shell e (cmd opts) (now w))) @ nl) (snd (qx e (cmd opts) w))"
  by (auto simp: decide_def then_do_def qx_def Let_def die_def)

lemma decide_run_invalid:
  "\<not> (da \<noteq> [] \<and> v da \<and> 0 < cacheMaxAgeSec opts \<and> ag < cacheMaxAgeSec opts) \<Longrightarrow>
   da = [] \<or> \<not> v da \<or> wr = ow \<Longrightarrow>
   cstatus (shell e (cmd opts) (now w)) = 0 \<Longrightarrow>
   \<not> v (cstdout (shell e (cmd opts) (now w))) \<Longrightarrow>
   decide e opts v ow (wr, da, ag) w =
     die (''response is not valid: '' @ cstdout (shell e (cmd opts) (now w)) @ nl)
       (snd (qx e (cmd opts) w))"
  by (auto simp: decide_def then_do_def qx_def Let_def die_def)

lemma decide_run_valid:
  "\<not> (da \<noteq> [] \<and> v da \<and> 0 < cacheMaxAgeSec opts \<and> ag < cacheMaxAgeSec opts) \<Longrightarrow>
   da = [] \<or> \<not> v da \<or> wr = ow \<Longrightarrow>
   cstatus (shell e (cmd opts) (now w)) = 0 \<Longrightarrow>
   v (cstdout (shell e (cmd opts) (now w))) \<Longrightarrow>
   decide e opts v ow (wr, da, ag) w =
     then_do (writeCache e (cacheFile opts) (cstdout (shell e (cmd opts) (now w))))
       (\<lambda>_. print_stdout (cstdout (shell e (cmd opts) (now w)))) (snd (qx e (cmd opts) w))"
  by (auto simp: decide_def then_do_def qx_def Let_def return_def split: prod.splits sum.splits)


lemma compile_effect:
  "compile e p w = (r, w') \<Longrightarrow>
     files w' = files w \<and> log w' = log w @ [Qr p] \<and> child w' = child w \<and>
     pipe_out w' = pipe_out w \<and> (\<forall>v. r = Inr v \<longrightarrow> pipe_err w' = pipe_err w \<and> qr e p = Inr v)"
  by (auto simp: compile_def die_def split: sum.splits)

lemma readCache_files:
  "readCache e f w = (r, w') \<Longrightarrow> files w f = Some d \<Longrightarrow> files w' = files w"
  using readCache_existing [where w=w and f=f and d=d and e=e] by simp

lemma readCache_setup:
  "readCache e f w = (r, w') \<Longrightarrow> \<exists>evs. log w' = log w @ evs \<and> (\<forall>ev\<in>set evs. is_setup ev)"
  using readCache_log [where w=w and f=f and e=e] by fastforce

lemma readCache_quiet:
  "(case readCache e f w of (r, w') \<Rightarrow>
      child w' = child w \<and> pipe_out w' = pipe_out w \<and>
      (\<forall>x. r = Inr x \<longrightarrow> pipe_err w' = pipe_err w))"
  by (simp add: readCache_def then_do_def or_die_def die_def Let_def
           split: option.splits prod.splits)

lemma readCache_pipes:
  "readCache e f w = (r, w') \<Longrightarrow>
     child w' = child w \<and> pipe_out w' = pipe_out w \<and> (\<forall>x. r = Inr x \<longrightarrow> pipe_err w' = pipe_err w)"
  using readCache_quiet [where w=w and f=f and e=e] by simp

lemma become_singleton_files:
  "become_singleton e f w = (r, w') \<Longrightarrow> files w f = Some d \<Longrightarrow>
     (\<And>fs. others e fs f = fs f) \<Longrightarrow> files w' f = Some d"
  using become_singleton_existing [where w=w and f=f and d=d and e=e] by simp

lemma become_singleton_setup:
  "become_singleton e f w = (r, w') \<Longrightarrow>
     \<exists>evs. log w' = log w @ evs \<and> (\<forall>ev\<in>set evs. is_setup ev)"
  using become_singleton_log [where w=w and f=f and e=e] by fastforce

lemma become_singleton_quiet:
  "(case become_singleton e f w of (r, w') \<Rightarrow>
      child w' = child w \<and> pipe_out w' = pipe_out w \<and>
      (\<forall>x. r = Inr x \<longrightarrow> pipe_err w' = pipe_err w))"
  by (simp add: become_singleton_def then_do_def or_die_def die_def Let_def
           split: option.splits prod.splits)

lemma become_singleton_pipes:
  "become_singleton e f w = (r, w') \<Longrightarrow>
     child w' = child w \<and> pipe_out w' = pipe_out w \<and> (\<forall>x. r = Inr x \<longrightarrow> pipe_err w' = pipe_err w)"
  using become_singleton_quiet [where w=w and f=f and e=e] by simp

lemma snapshots_files:
  assumes "snapshots e opts w = (r, w3)" and "files w (cacheFile opts) = Some d"
    and "\<And>fs. others e fs (cacheFile opts) = fs (cacheFile opts)"
  shows "files w3 (cacheFile opts) = Some d"
  using assms unfolding snapshots_def
proof -
  have rd: "\<And>w r w'. readCache e (cacheFile opts) w = (r, w') \<Longrightarrow>
      files w (cacheFile opts) = Some d \<Longrightarrow> files w' (cacheFile opts) = Some d"
    by (simp add: readCache_files)
  have bs: "\<And>w r w'. become_singleton e (cacheFile opts) w = (r, w') \<Longrightarrow>
      files w (cacheFile opts) = Some d \<Longrightarrow> files w' (cacheFile opts) = Some d"
    by (erule become_singleton_files) (simp_all add: assms(3))
  have cp: "\<And>w r w'. compile e (validator opts) w = (r, w') \<Longrightarrow>
      files w (cacheFile opts) = Some d \<Longrightarrow> files w' (cacheFile opts) = Some d"
    by (simp add: compile_effect)
  from assms(1) show ?thesis unfolding snapshots_def
    by (auto simp: return_def elim!: then_do_cases split: prod.splits)
       (metis assms(2) rd bs cp)+
qed

lemma snapshots_setup:
  assumes "snapshots e opts w = (r, w3)"
  shows "\<exists>evs. log w3 = log w @ evs \<and> (\<forall>ev\<in>set evs. is_setup ev)"
  using assms unfolding snapshots_def
  by (auto simp: return_def elim!: then_do_cases
           dest!: compile_effect readCache_setup become_singleton_setup split: prod.splits)

lemma snapshots_pipes:
  assumes "snapshots e opts w = (Inr x, w3)"
  shows "child w3 = child w \<and> pipe_out w3 = pipe_out w \<and> pipe_err w3 = pipe_err w"
  using assms unfolding snapshots_def
  by (auto simp: return_def elim!: then_do_cases
           dest!: compile_effect readCache_pipes become_singleton_pipes split: prod.splits)


lemma qx_proj [simp]:
  "files (snd (qx e c w)) = files w"
  "log (snd (qx e c w)) = log w @ [Qx c]"
  "pipe_out (snd (qx e c w)) = pipe_out w"
  "pipe_err (snd (qx e c w)) = pipe_err w @ cstderr (shell e c (now w))"
  "child (snd (qx e c w)) = cstatus (shell e c (now w))"
  "now (snd (qx e c w)) = now w + int (csecs (shell e c (now w)))"
  by (simp_all add: qx_def Let_def)

lemma die_proj [simp]:
  "fst (die m w) = Inl m"
  "files (snd (die m w)) = files w"
  "log (snd (die m w)) = log w"
  "pipe_out (snd (die m w)) = pipe_out w"
  "pipe_err (snd (die m w)) = pipe_err w @ m"
  "child (snd (die m w)) = child w"
  "now (snd (die m w)) = now w"
  by (simp_all add: die_def)

lemma writeCache_grows:
  "\<exists>evs. log (snd (writeCache e f data w)) = log w @ evs"
  by (simp add: writeCache_def then_do_def or_die_def die_def Let_def split: option.splits)

lemma decide_run_log:
  assumes "\<not> (da \<noteq> [] \<and> v da \<and> 0 < cacheMaxAgeSec opts \<and> ag < cacheMaxAgeSec opts)"
    and "da = [] \<or> \<not> v da \<or> wr = ow"
  shows "\<exists>evs. log (snd (decide e opts v ow (wr, da, ag) w)) = log w @ Qx (cmd opts) # evs"
proof -
  let ?c = "shell e (cmd opts) (now w)"
  consider (nonzero) "cstatus ?c \<noteq> 0" | (invalid) "cstatus ?c = 0" "\<not> v (cstdout ?c)"
    | (valid) "cstatus ?c = 0" "v (cstdout ?c)" by blast
  then show ?thesis
  proof cases
    case nonzero
    then show ?thesis using assms by (simp add: decide_run_nonzero)
  next
    case invalid
    then show ?thesis using assms by (simp add: decide_run_invalid)
  next
    case valid
    obtain evs where evs: "log (snd (writeCache e (cacheFile opts) (cstdout ?c) (snd (qx e (cmd opts) w))))
        = log (snd (qx e (cmd opts) w)) @ evs"
      using writeCache_grows by blast
    show ?thesis
      using assms valid evs
      by (cases "writeCache e (cacheFile opts) (cstdout ?c) (snd (qx e (cmd opts) w))")
         (auto simp: decide_run_valid then_do_def print_stdout_def split: sum.splits)
  qed
qed

lemma decide_effect:
  assumes "decide e opts v ow (wr, da, ag) w = (r, w')" and "files w (cacheFile opts) = Some d"
  shows "content_mtime (cacheFile opts) w' = content_mtime (cacheFile opts) w \<or>
         (r = Inr () \<and> map_option perms (files w' (cacheFile opts)) = Some owner_rw)"
proof -
  let ?c = "shell e (cmd opts) (now w)"
  let ?f = "cacheFile opts"
  consider (reuse) "da \<noteq> []" "v da" "0 < cacheMaxAgeSec opts" "ag < cacheMaxAgeSec opts"
    | (coalesce) "da \<noteq> []" "v da" "\<not> (0 < cacheMaxAgeSec opts \<and> ag < cacheMaxAgeSec opts)" "wr \<noteq> ow"
    | (run) "\<not> (da \<noteq> [] \<and> v da \<and> 0 < cacheMaxAgeSec opts \<and> ag < cacheMaxAgeSec opts)"
        "da = [] \<or> \<not> v da \<or> wr = ow"
    by blast
  then show ?thesis
  proof cases
    case reuse
    then show ?thesis using assms(1) by (auto simp: decide_reuse content_mtime_def)
  next
    case coalesce
    then show ?thesis using assms(1) by (auto simp: decide_coalesce content_mtime_def)
  next
    case run
    consider (nonzero) "cstatus ?c \<noteq> 0" | (invalid) "cstatus ?c = 0" "\<not> v (cstdout ?c)"
      | (valid) "cstatus ?c = 0" "v (cstdout ?c)" by blast
    then show ?thesis
    proof cases
      case nonzero
      with run assms(1) show ?thesis
        by (auto simp: decide_run_nonzero die_def qx_def Let_def content_mtime_def)
    next
      case invalid
      with run assms(1) show ?thesis
        by (auto simp: decide_run_invalid die_def qx_def Let_def content_mtime_def)
    next
      case valid
      let ?w1 = "snd (qx e (cmd opts) w)"
      have ex: "files ?w1 ?f = Some d" using assms(2) by simp
      have same: "content_mtime ?f ?w1 = content_mtime ?f w" by (simp add: content_mtime_def)
      from run valid assms(1) have
        td: "then_do (writeCache e ?f (cstdout ?c)) (\<lambda>_. print_stdout (cstdout ?c)) ?w1 = (r, w')"
        by (simp add: decide_run_valid)
      from td show ?thesis
      proof (cases rule: then_do_cases)
        case (died msg)
        then show ?thesis using writeCache_Inl_aux [OF ex, where e=e and data="cstdout ?c"] same by simp
      next
        case (went x w2)
        then show ?thesis
          using writeCache_Inr_aux [where e=e and f="?f" and data="cstdout ?c" and w="?w1"]
          by (auto simp: print_stdout_def)
      qed
    qed
  qed
qed

text \<open>Concrete runs are evaluated block by block.\<close>

lemmas run_defs = snapshots_def compile_def readCache_def become_singleton_def then_do_def
  or_die_def die_def return_def create_if_absent_def slurp_def stat_mtime_def parse_record_def
  wait_for_lock_def Let_def

lemma perl_main_from_snapshots:
  "snapshots e opts w = (Inr (v, ow, wr, da, ag), w3) \<Longrightarrow>
     perl_main e opts w = decide e opts v ow (wr, da, ag) w3"
  by (simp add: perl_main_def then_do_def)


lemma writeCache_ok:
  assumes "os_error e = (\<lambda>l ev. None)" and "files w f \<noteq> None"
  shows "writeCache e f data w =
    (Inr (), w\<lparr>files := (files w)(f \<mapsto> \<lparr>content = show_nat (pid e) @ '': '' @ localtime e (now w) @ nl @ data,
                                         mtime = now w, perms = owner_rw\<rparr>),
               log := log w @ [Open ''+>>'' f, Chmod owner_rw f, Flock f LOCK_EX, Seek f, Truncate f,
                 Print f (show_nat (pid e) @ '': '' @ localtime e (now w) @ nl @ data), Close f]\<rparr>)"
proof -
  obtain d where d: "files w f = Some d" using assms(2) by blast
  show ?thesis
    using assms(1) d
    by (cases d)
       (simp add: writeCache_def then_do_def or_die_def Let_def create_if_absent_def set_perms_def
          set_content_def print_fh_def slurp_def)
qed

lemma silent_snapshots:
  "snapshots silent_env \<lparr>cmd = ''true'', cacheFile = ''c'', cacheMaxAgeSec = 0, validator = pat\<rparr>
     empty_world =
     (case sample_qr pat of
        Inl msg \<Rightarrow> (Inl msg, empty_world\<lparr>log := [Qr pat], pipe_err := msg\<rparr>)
      | Inr v \<Rightarrow>
         (Inr (v, [], [], [], 0),
          empty_world
            \<lparr>files := (files empty_world)
                (''c.lock'' \<mapsto> \<lparr>content = [], mtime = 100, perms = 420\<rparr>),
             log := [Qr pat, Open ''+>>'' ''c'', Flock ''c'' LOCK_SH, Seek ''c'',
                     Open ''>>'' ''c.lock'', Flock ''c.lock'' LOCK_EX,
                     Open ''+>>'' ''c'', Flock ''c'' LOCK_SH, Seek ''c'']\<rparr>))"
  by (simp add: run_defs silent_env_def sample_env_def empty_world_def split: sum.splits)

lemma fresh_proj [simp]:
  "files (fresh w) = files w" "now (fresh w) = now w" "log (fresh w) = []"
  "child (fresh w) = 0" "pipe_out (fresh w) = []" "pipe_err (fresh w) = []"
  by (simp_all add: fresh_def)

lemma perl_main_effect:
  assumes "perl_main e opts w = (r, w')" and "files w (cacheFile opts) = Some d"
    and "\<And>fs. others e fs (cacheFile opts) = fs (cacheFile opts)"
  shows "content_mtime (cacheFile opts) w' = content_mtime (cacheFile opts) w \<or>
         (r = Inr () \<and> map_option perms (files w' (cacheFile opts)) = Some owner_rw)"
  using assms(1) unfolding perl_main_def
proof (cases rule: then_do_cases)
  case (died msg)
  then have "files w' (cacheFile opts) = Some d"
    using snapshots_files assms(2,3) by blast
  then show ?thesis using assms(2) by (simp add: content_mtime_def)
next
  case (went x w3)
  then have f3: "files w3 (cacheFile opts) = Some d"
    using snapshots_files assms(2,3) by blast
  obtain v ow wr da ag where x: "x = (v, ow, wr, da, ag)" by (cases x) auto
  from went(2) have "decide e opts v ow (wr, da, ag) w3 = (r, w')" by (simp add: x)
  from decide_effect [OF this f3] show ?thesis
    using f3 assms(2) by (simp add: content_mtime_def)
qed

lemma die_status_nonzero: "die_status en ch \<noteq> 0"
  by (simp add: die_status_def)

lemma die_status_range: "0 < die_status en ch \<and> die_status en ch < 256"
proof -
  have "0 \<le> int en mod 256" "int en mod 256 < 256"
    "0 \<le> (ch div 256) mod 256" "(ch div 256) mod 256 < 256"
    by simp_all
  then show ?thesis unfolding die_status_def by (auto simp: less_le)
qed

lemma spawn_perl_died:
  "perl_main e opts (fresh w) = (Inl msg, w') \<Longrightarrow>
   spawn_perl e opts w =
     (\<lparr>status = Some (die_status (errno e) (child w')), stdout = pipe_out w',
       stderr = pipe_err w'\<rparr>, w')"
  by (simp add: spawn_perl_def)


lemma processResult_throws:
  "status res \<noteq> Some 0 \<Longrightarrow> \<exists>m. processResult e func res = Inl m"
  by (simp add: processResult_def Let_def)

lemma died_throws:
  assumes "perl_main e opts (fresh w) = (Inl msg, w')"
  shows "(\<exists>m. fst (spawnBurstSync e opts w) = Inl m) \<and> (\<exists>m. fst (spawnBurst e opts w) = Inl m)"
proof -
  have a: "status (fst (spawn_perl e opts w)) \<noteq> Some 0"
    by (simp add: spawn_perl_died [OF assms] die_status_nonzero)
  have "status (fst (spawnSync_perl e opts w)) \<noteq> Some 0"
    using a by (cases "spawn_perl e opts w") (simp add: spawnSync_perl_def Let_def)
  then have "\<exists>m. fst (spawnBurstSync e opts w) = Inl m"
    using processResult_throws [where res = "fst (spawnSync_perl e opts w)"]
    by (cases "spawnSync_perl e opts w") (simp add: spawnBurstSync_def)
  moreover have "\<exists>m. fst (spawnBurst e opts w) = Inl m"
    using a processResult_throws [where res = "fst (spawn_perl e opts w)"]
    by (cases "spawn_perl e opts w") (simp add: spawnBurst_def)
  ultimately show ?thesis by simp
qed


lemma executed_means_run:
  assumes "perl_main e opts w = (r, w')"
    and "Qx (cmd opts) \<in> set (drop (length (log w)) (log w'))"
  obtains v ow wr da ag w3 evs where
    "snapshots e opts w = (Inr (v, ow, wr, da, ag), w3)"
    "\<not> (da \<noteq> [] \<and> v da \<and> 0 < cacheMaxAgeSec opts \<and> ag < cacheMaxAgeSec opts)"
    "da = [] \<or> \<not> v da \<or> wr = ow"
    "log w3 = log w @ evs" "\<forall>ev\<in>set evs. is_setup ev"
    "decide e opts v ow (wr, da, ag) w3 = (r, w')"
  using assms(1) unfolding perl_main_def
proof (cases rule: then_do_cases)
  case (died msg)
  then obtain evs where "log w' = log w @ evs" "\<forall>ev\<in>set evs. is_setup ev"
    using snapshots_setup by blast
  with assms(2) show ?thesis by auto
next
  case (went x w3)
  obtain v ow wr da ag where x: "x = (v, ow, wr, da, ag)" by (cases x) auto
  obtain evs where l3: "log w3 = log w @ evs" "\<forall>ev\<in>set evs. is_setup ev"
    using snapshots_setup went(1) by blast
  from went(2) have d: "decide e opts v ow (wr, da, ag) w3 = (r, w')" by (simp add: x)
  have nr: "\<not> (da \<noteq> [] \<and> v da \<and> 0 < cacheMaxAgeSec opts \<and> ag < cacheMaxAgeSec opts)"
  proof
    assume "da \<noteq> [] \<and> v da \<and> 0 < cacheMaxAgeSec opts \<and> ag < cacheMaxAgeSec opts"
    then have "log w' = log w3 @ [Stdout da, Exit 0]" using d by (auto simp: decide_reuse)
    with assms(2) l3 show False by auto
  qed
  have rn: "da = [] \<or> \<not> v da \<or> wr = ow"
  proof (rule ccontr)
    assume "\<not> (da = [] \<or> \<not> v da \<or> wr = ow)"
    then have "da \<noteq> []" "v da" "wr \<noteq> ow" by auto
    with nr have "decide e opts v ow (wr, da, ag) w3 =
        (Inr (), w3\<lparr>pipe_out := pipe_out w3 @ da, log := log w3 @ [Stdout da]\<rparr>)"
      by (intro decide_coalesce) auto
    with d have "log w' = log w3 @ [Stdout da]" by auto
    with assms(2) l3 show False by auto
  qed
  show ?thesis using that [OF _ nr rn l3 d] went(1) x by simp
qed

lemma parse_record_no_newline: "CHR 0x0A \<notin> set c \<Longrightarrow> parse_record c = None"
  by (simp add: parse_record_def Let_def dropWhile_eq_Nil_conv)

lemma parse_record_writer: "parse_record c = Some (wr, da) \<Longrightarrow> wr \<noteq> []"
  by (auto simp: parse_record_def Let_def split: if_splits)

lemma readCache_garbage:
  "files w f = Some d \<Longrightarrow> content d \<noteq> [] \<Longrightarrow> CHR 0x0A \<notin> set (content d) \<Longrightarrow>
   (case readCache e f w of (r, w') \<Rightarrow>
      (\<exists>msg. r = Inl msg) \<and> files w' = files w \<and>
      (\<exists>evs. log w' = log w @ evs \<and> set evs \<subseteq> {Open ''+>>'' f, Flock f LOCK_SH, Seek f}))"
  by (simp add: readCache_def then_do_def or_die_def die_def Let_def slurp_def
        parse_record_no_newline split: option.splits)

lemma readCache_garbage_quiet:
  "files w f = Some d \<Longrightarrow> content d \<noteq> [] \<Longrightarrow> CHR 0x0A \<notin> set (content d) \<Longrightarrow>
   os_error e = (\<lambda>l ev. None) \<Longrightarrow>
   readCache e f w =
     (Inl (''invalid format of '' @ f @ nl),
      w\<lparr>log := log w @ [Open ''+>>'' f, Flock f LOCK_SH, Seek f],
        pipe_err := pipe_err w @ ''invalid format of '' @ f @ nl\<rparr>)"
  by (simp add: readCache_def then_do_def or_die_def die_def Let_def slurp_def
        parse_record_no_newline)

lemma readCache_sentinel:
  "files w f = Some d \<Longrightarrow>
   (case readCache e f w of
      (Inl msg, w') \<Rightarrow> True
    | (Inr (wr, da, ag), w') \<Rightarrow> (wr = [] \<longleftrightarrow> content d = []))"
  by (auto simp: readCache_def then_do_def or_die_def die_def Let_def slurp_def
        split: option.splits dest: parse_record_writer)

lemma garbage_perl_main:
  assumes "files w (cacheFile opts) = Some d" and "content d \<noteq> []"
    and "CHR 0x0A \<notin> set (content d)"
  shows "(\<exists>msg. fst (perl_main e opts w) = Inl msg) \<and>
         files (snd (perl_main e opts w)) = files w \<and>
         (\<exists>evs. log (snd (perl_main e opts w)) = log w @ Qr (validator opts) # evs \<and>
            set evs \<subseteq> {Open ''+>>'' (cacheFile opts), Flock (cacheFile opts) LOCK_SH,
                            Seek (cacheFile opts)}) \<and>
         (\<forall>v. qr e (validator opts) = Inr v \<and> os_error e = (\<lambda>l ev. None) \<longrightarrow>
            perl_main e opts w =
              (Inl (''invalid format of '' @ cacheFile opts @ nl),
               w\<lparr>log := log w @ [Qr (validator opts), Open ''+>>'' (cacheFile opts),
                                   Flock (cacheFile opts) LOCK_SH, Seek (cacheFile opts)],
                   pipe_err := pipe_err w @ ''invalid format of '' @ cacheFile opts @ nl\<rparr>))"
proof (cases "qr e (validator opts)")
  case (Inl msg)
  then show ?thesis
    by (simp add: perl_main_def snapshots_def then_do_def compile_def die_def)
next
  case (Inr v)
  let ?w0 = "w\<lparr>log := log w @ [Qr (validator opts)]\<rparr>"
  have f0: "files ?w0 (cacheFile opts) = Some d" using assms(1) by simp
  obtain r w1 where rc: "readCache e (cacheFile opts) ?w0 = (r, w1)"
    by (cases "readCache e (cacheFile opts) ?w0") auto
  from readCache_garbage [OF f0 assms(2,3), where e=e] rc
  obtain msg evs where g: "r = Inl msg" "files w1 = files w"
      "log w1 = log w @ Qr (validator opts) # evs"
      "set evs \<subseteq> {Open ''+>>'' (cacheFile opts), Flock (cacheFile opts) LOCK_SH,
                      Seek (cacheFile opts)}"
    by auto
  have pm: "perl_main e opts w = (Inl msg, w1)"
    using Inr rc g(1) by (simp add: perl_main_def snapshots_def then_do_def compile_def)
  have q: "os_error e = (\<lambda>l ev. None) \<longrightarrow>
      msg = ''invalid format of '' @ cacheFile opts @ nl \<and>
      w1 = w\<lparr>log := log w @ [Qr (validator opts), Open ''+>>'' (cacheFile opts),
                              Flock (cacheFile opts) LOCK_SH, Seek (cacheFile opts)],
              pipe_err := pipe_err w @ ''invalid format of '' @ cacheFile opts @ nl\<rparr>"
    using readCache_garbage_quiet [OF f0 assms(2,3), where e=e] rc g(1) by auto
  show ?thesis using g q Inr by (auto simp: pm)
qed

lemma show_nat_256: "show_nat 256 = ''256''"
  by (simp add: show_nat.simps)

lemma show_nat_1: "show_nat (Suc 0) = ''1''"
  by (simp add: show_nat.simps)

lemma failing_run:
  "perl_main failing_env sample_opts sample_world =
    (Inl (''command exited with nonzero status 256'' @ nl),
     sample_world
      \<lparr>files := (files sample_world)
          (''c.lock'' \<mapsto> \<lparr>content = [], mtime = 100, perms = 420\<rparr>),
       now := 101, child := 256,
       pipe_err := ''bad'' @ nl @ ''command exited with nonzero status 256'' @ nl,
       log := [Qr ''.+'', Open ''+>>'' ''c'', Flock ''c'' LOCK_SH, Seek ''c'', Close ''c'',
               Open ''>>'' ''c.lock'', Flock ''c.lock'' LOCK_EX,
               Open ''+>>'' ''c'', Flock ''c'' LOCK_SH, Seek ''c'', Close ''c'',
               Qx ''echo ok'']\<rparr>)"
proof -
  have q: "shell failing_env =
      (\<lambda>c t. \<lparr>cstatus = 256, cstdout = [], cstderr = ''bad'' @ nl, csecs = 1\<rparr>)"
    by (simp add: failing_env_def sample_env_def)
  have s: "snapshots failing_env sample_opts sample_world =
      (Inr (\<lambda>t. t \<noteq> [], ''5: s'', ''5: s'', ''old'', 10),
       sample_world
        \<lparr>files := (files sample_world)
            (''c.lock'' \<mapsto> \<lparr>content = [], mtime = 100, perms = 420\<rparr>),
         log := [Qr ''.+'', Open ''+>>'' ''c'', Flock ''c'' LOCK_SH, Seek ''c'', Close ''c'',
                 Open ''>>'' ''c.lock'', Flock ''c.lock'' LOCK_EX,
                 Open ''+>>'' ''c'', Flock ''c'' LOCK_SH, Seek ''c'', Close ''c'']\<rparr>)"
    by (simp add: run_defs failing_env_def sample_env_def sample_opts_def sample_world_def
          sample_qr_def)
  show ?thesis
    unfolding perl_main_from_snapshots [OF s]
    by (simp add: decide_run_nonzero q sample_opts_def die_def qx_def Let_def show_int_def
          show_nat_256 sample_world_def)
qed

lemma fresh_sample_world: "fresh sample_world = sample_world"
  by (simp add: fresh_def sample_world_def)

lemma failing_spawn:
  "spawn_perl failing_env sample_opts sample_world =
    (\<lparr>status = Some 1, stdout = [],
      stderr = ''bad'' @ nl @ ''command exited with nonzero status 256'' @ nl\<rparr>,
     sample_world
      \<lparr>files := (files sample_world)
          (''c.lock'' \<mapsto> \<lparr>content = [], mtime = 100, perms = 420\<rparr>),
       now := 101, child := 256,
       pipe_err := ''bad'' @ nl @ ''command exited with nonzero status 256'' @ nl,
       log := [Qr ''.+'', Open ''+>>'' ''c'', Flock ''c'' LOCK_SH, Seek ''c'', Close ''c'',
               Open ''>>'' ''c.lock'', Flock ''c.lock'' LOCK_EX,
               Open ''+>>'' ''c'', Flock ''c'' LOCK_SH, Seek ''c'', Close ''c'',
               Qx ''echo ok'']\<rparr>)"
proof -
  have e0: "errno failing_env = 0"
    by (simp add: failing_env_def sample_env_def)
  have p: "pipe_out sample_world = []"
    by (simp add: sample_world_def)
  show ?thesis
    by (simp add: spawn_perl_def fresh_sample_world failing_run die_status_def e0 p)
qed

lemma writing_run:
  "perl_main sample_env sample_opts sample_world =
    (Inr (),
     sample_world
      \<lparr>files := (files sample_world)
          (''c.lock'' \<mapsto> \<lparr>content = [], mtime = 100, perms = 420\<rparr>,
           ''c'' \<mapsto> \<lparr>content = ''7: Mon'' @ nl @ ''ok'' @ nl, mtime = 101, perms = 384\<rparr>),
       now := 101, pipe_out := ''ok'' @ nl,
       log := [Qr ''.+'', Open ''+>>'' ''c'', Flock ''c'' LOCK_SH, Seek ''c'', Close ''c'',
               Open ''>>'' ''c.lock'', Flock ''c.lock'' LOCK_EX,
               Open ''+>>'' ''c'', Flock ''c'' LOCK_SH, Seek ''c'', Close ''c'',
               Qx ''echo ok'',
               Open ''+>>'' ''c'', Chmod 384 ''c'', Flock ''c'' LOCK_EX, Seek ''c'',
               Truncate ''c'', Print ''c'' (''7: Mon'' @ nl @ ''ok'' @ nl), Close ''c'',
               Stdout (''ok'' @ nl)]\<rparr>)"
proof -
  have n: "show_nat 7 = ''7''"
    by (simp add: show_nat.simps)
  have q: "os_error sample_env = (\<lambda>l ev. None)" "pid sample_env = 7"
    "localtime sample_env = (\<lambda>t. ''Mon'')"
    "shell sample_env = (\<lambda>c t. \<lparr>cstatus = 0, cstdout = ''ok'' @ nl, cstderr = [], csecs = 1\<rparr>)"
    by (simp_all add: sample_env_def)
  have s: "snapshots sample_env sample_opts sample_world =
      (Inr (\<lambda>t. t \<noteq> [], ''5: s'', ''5: s'', ''old'', 10),
       sample_world
        \<lparr>files := (files sample_world)
            (''c.lock'' \<mapsto> \<lparr>content = [], mtime = 100, perms = 420\<rparr>),
         log := [Qr ''.+'', Open ''+>>'' ''c'', Flock ''c'' LOCK_SH, Seek ''c'', Close ''c'',
                 Open ''>>'' ''c.lock'', Flock ''c.lock'' LOCK_EX,
                 Open ''+>>'' ''c'', Flock ''c'' LOCK_SH, Seek ''c'', Close ''c'']\<rparr>)"
    by (simp add: run_defs sample_env_def sample_opts_def sample_world_def sample_qr_def)
  show ?thesis
    unfolding perl_main_from_snapshots [OF s]
    by (simp add: decide_run_valid q sample_opts_def qx_def
          writeCache_ok then_do_def print_stdout_def sample_world_def n owner_rw_def)
qed

lemma snapshots_invariant:
  assumes s: "snapshots e opts w = (r, w3)"
    and cp: "\<And>w r w'. compile e (validator opts) w = (r, w') \<Longrightarrow> P w \<Longrightarrow> P w'"
    and rd: "\<And>w r w'. readCache e (cacheFile opts) w = (r, w') \<Longrightarrow> P w \<Longrightarrow> P w'"
    and bs: "\<And>w r w'. become_singleton e (cacheFile opts) w = (r, w') \<Longrightarrow> P w \<Longrightarrow> P w'"
    and p: "P w"
  shows "P w3 \<and> (\<forall>x. r = Inr x \<longrightarrow> (\<exists>w2 y. readCache e (cacheFile opts) w2 = (Inr y, w3)))"
  using s unfolding snapshots_def
proof (cases rule: then_do_cases)
  case (died msg)
  then show ?thesis using cp p by blast
next
  case c: (went v w1)
  have p1: "P w1" using cp c(1) p by blast
  from c(2) show ?thesis
  proof (cases rule: then_do_cases)
    case (died msg)
    then show ?thesis using rd p1 by blast
  next
    case r0: (went x0 w2)
    have p2: "P w2" using rd r0(1) p1 by blast
    obtain ow a b where x0: "x0 = (ow, a, b)" by (cases x0) auto
    from r0(2) have "then_do (become_singleton e (cacheFile opts)) (\<lambda>_.
        then_do (readCache e (cacheFile opts)) (\<lambda>(writer, data, age).
          return (v, ow, writer, data, age))) w2 = (r, w3)"
      by (simp add: x0)
    then show ?thesis
    proof (cases rule: then_do_cases)
      case (died msg)
      then show ?thesis using bs p2 by blast
    next
      case b: (went u w2')
      have p2': "P w2'" using bs b(1) p2 by blast
      from b(2) show ?thesis
      proof (cases rule: then_do_cases)
        case (died msg)
        then show ?thesis using rd p2' by blast
      next
        case r1: (went x1 w3')
        have p3: "P w3'" using rd r1(1) p2' by blast
        obtain wr da ag where x1: "x1 = (wr, da, ag)" by (cases x1) auto
        from r1(2) have "w3 = w3'" by (simp add: x1 return_def)
        then show ?thesis using p3 r1(1) by blast
      qed
    qed
  qed
qed

lemma readCache_slurp:
  "(case readCache e f w of (r, w') \<Rightarrow>
      slurp f w' = slurp f w \<and> (\<forall>x. r = Inr x \<longrightarrow> files w' f \<noteq> None))"
  by (simp add: readCache_def then_do_def or_die_def die_def Let_def slurp_def create_if_absent_def
           split: option.splits prod.splits)

lemma become_singleton_data:
  "(\<And>fs. others e fs f = fs f) \<Longrightarrow>
   (case become_singleton e f w of (r, w') \<Rightarrow> files w' f = files w f)"
  by (simp add: become_singleton_def then_do_def or_die_def die_def Let_def
           split: option.splits prod.splits)

lemma snapshots_slurp:
  assumes "snapshots e opts w = (r, w3)"
    and "\<And>fs. others e fs (cacheFile opts) = fs (cacheFile opts)"
  shows "slurp (cacheFile opts) w3 = slurp (cacheFile opts) w \<and>
         (\<forall>x. r = Inr x \<longrightarrow> files w3 (cacheFile opts) \<noteq> None)"
proof -
  let ?f = "cacheFile opts"
  let ?P = "\<lambda>w'. slurp ?f w' = slurp ?f w"
  have rd: "\<And>w r w'. readCache e ?f w = (r, w') \<Longrightarrow>
      slurp ?f w' = slurp ?f w \<and> (\<forall>x. r = Inr x \<longrightarrow> files w' ?f \<noteq> None)"
  proof -
    fix w r w' assume a: "readCache e ?f w = (r, w')"
    show "slurp ?f w' = slurp ?f w \<and> (\<forall>x. r = Inr x \<longrightarrow> files w' ?f \<noteq> None)"
      using readCache_slurp [where e=e and f="?f" and w=w] unfolding a by simp
  qed
  have bs: "\<And>w r w'. become_singleton e ?f w = (r, w') \<Longrightarrow> slurp ?f w' = slurp ?f w"
  proof -
    fix w r w' assume a: "become_singleton e ?f w = (r, w')"
    show "slurp ?f w' = slurp ?f w"
      using become_singleton_data [where e=e and f="?f" and w=w, OF assms(2)] unfolding a
      by (simp add: slurp_def)
  qed
  have cp: "\<And>w r w'. compile e (validator opts) w = (r, w') \<Longrightarrow> slurp ?f w' = slurp ?f w"
    by (simp add: compile_effect slurp_def)
  have "?P w3 \<and> (\<forall>x. r = Inr x \<longrightarrow> (\<exists>w2 y. readCache e ?f w2 = (Inr y, w3)))"
  proof (rule snapshots_invariant [OF assms(1), where P = ?P])
    show "\<And>w0 r w'. compile e (validator opts) w0 = (r, w') \<Longrightarrow> ?P w0 \<Longrightarrow> ?P w'"
      using cp by simp
    show "\<And>w0 r w'. readCache e ?f w0 = (r, w') \<Longrightarrow> ?P w0 \<Longrightarrow> ?P w'"
      using rd by simp
    show "\<And>w0 r w'. become_singleton e ?f w0 = (r, w') \<Longrightarrow> ?P w0 \<Longrightarrow> ?P w'"
      using bs by simp
    show "?P w" by simp
  qed
  then show ?thesis using rd by blast
qed

lemma content_mtime_slurp:
  "content_mtime f w' = content_mtime f w \<Longrightarrow> slurp f w' = slurp f w"
  by (auto simp: content_mtime_def slurp_def split: option.splits)

lemma died_after_snapshots:
  assumes "perl_main e opts w = (Inl msg, w')" and "snapshots e opts w = (Inr x, w3)"
    and "\<And>fs. others e fs (cacheFile opts) = fs (cacheFile opts)"
  shows "content_mtime (cacheFile opts) w' = content_mtime (cacheFile opts) w3"
proof -
  obtain v ow wr da ag where x: "x = (v, ow, wr, da, ag)" by (cases x) auto
  have d: "decide e opts v ow (wr, da, ag) w3 = (Inl msg, w')"
    using assms(1) perl_main_from_snapshots [OF assms(2) [unfolded x]] by simp
  have "files w3 (cacheFile opts) \<noteq> None"
    using snapshots_slurp [OF assms(2,3)] by blast
  then obtain d3 where f3: "files w3 (cacheFile opts) = Some d3" by blast
  from decide_effect [OF d f3] show ?thesis by simp
qed

lemma perl_main_died_effect:
  assumes "perl_main e opts w = (Inl msg, w')"
    and "\<And>fs. others e fs (cacheFile opts) = fs (cacheFile opts)"
  shows "slurp (cacheFile opts) w' = slurp (cacheFile opts) w \<and>
         (\<forall>d. files w (cacheFile opts) = Some d \<longrightarrow>
            content_mtime (cacheFile opts) w' = Some (content d, mtime d))"
proof -
  have 1: "slurp (cacheFile opts) w' = slurp (cacheFile opts) w"
    using assms(1) unfolding perl_main_def
  proof (cases rule: then_do_cases)
    case (died m)
    then show ?thesis using snapshots_slurp [OF _ assms(2)] by blast
  next
    case (went x w3)
    have "content_mtime (cacheFile opts) w' = content_mtime (cacheFile opts) w3"
      using died_after_snapshots [OF assms(1) went(1) assms(2)] .
    then have "slurp (cacheFile opts) w' = slurp (cacheFile opts) w3"
      by (rule content_mtime_slurp)
    then show ?thesis using snapshots_slurp [OF went(1) assms(2)] by simp
  qed
  have 2: "\<forall>d. files w (cacheFile opts) = Some d \<longrightarrow>
            content_mtime (cacheFile opts) w' = Some (content d, mtime d)"
  proof (intro allI impI)
    fix d assume d: "files w (cacheFile opts) = Some d"
    from perl_main_effect [OF assms(1) d assms(2)]
    show "content_mtime (cacheFile opts) w' = Some (content d, mtime d)"
      using d by (simp add: content_mtime_def)
  qed
  from 1 2 show ?thesis by simp
qed

lemma sync_died:
  assumes "perl_main e opts (fresh w) = (Inl msg, w')"
    and "\<And>fs. others e fs (cacheFile opts) = fs (cacheFile opts)"
  shows "\<exists>m ws. spawnBurstSync e opts w = (Inl m, ws) \<and>
           content_mtime (cacheFile opts) ws = content_mtime (cacheFile opts) w'"
proof -
  let ?wq = "snd (qx e (cmd opts) (snd (snapshots e opts (fresh w))))"
  have sp: "spawn_perl e opts w =
     (\<lparr>status = Some (die_status (errno e) (child w')), stdout = pipe_out w',
       stderr = pipe_err w'\<rparr>, w')"
    by (rule spawn_perl_died [OF assms(1)])
  obtain res ws where ss: "spawnSync_perl e opts w = (res, ws)"
    by (cases "spawnSync_perl e opts w") auto
  have st: "status res \<noteq> Some 0"
    using ss sp by (auto simp: spawnSync_perl_def Let_def die_status_nonzero split: if_splits)
  have ws: "ws = w' \<or> (Qx (cmd opts) \<in> set (log w') \<and> ws = ?wq)"
    using ss sp by (auto simp: spawnSync_perl_def Let_def split: if_splits)
  have cm: "content_mtime (cacheFile opts) ws = content_mtime (cacheFile opts) w'"
  proof (cases "ws = w'")
    case True
    then show ?thesis by simp
  next
    case False
    with ws have q: "Qx (cmd opts) \<in> set (log w')" and wq: "ws = ?wq" by auto
    from assms(1) q obtain v ow wr da ag w3 where
      s: "snapshots e opts (fresh w) = (Inr (v, ow, wr, da, ag), w3)"
      by (elim executed_means_run) simp_all
    have "content_mtime (cacheFile opts) w' = content_mtime (cacheFile opts) w3"
      using died_after_snapshots [OF assms(1) s assms(2)] .
    moreover have "files ws = files w3" using wq s by simp
    ultimately show ?thesis by (simp add: content_mtime_def)
  qed
  obtain m where "processResult e ''spawnBurstSync'' res = Inl m"
    using processResult_throws [OF st] by blast
  then show ?thesis using ss cm by (simp add: spawnBurstSync_def)
qed

lemma ascii_simps [simp]: "ascii [] = []" "ascii (a @ b) = ascii a @ ascii b"
  by (simp_all add: ascii_def)

lemma trim_ascii_bad:
  "trim (ascii (''bad'' @ nl @ ''command exited with nonzero status 256'' @ nl)) =
   ascii (''bad'' @ nl @ ''command exited with nonzero status 256'')"
  by (simp add: trim_def js_space_def ascii_def)

lemma maxBuffer_pos: "0 < maxBuffer"
  by (simp add: maxBuffer_def)

lemma flood_length: "maxBuffer < length flood" "flood \<noteq> []"
  using maxBuffer_pos by (auto simp: flood_def)

lemma bare_failing_run:
  "perl_main failing_env sample_opts bare_world =
    (Inl (''command exited with nonzero status 256'' @ nl),
     bare_world
      \<lparr>files := [''c'' \<mapsto> \<lparr>content = [], mtime = 100, perms = 420\<rparr>,
                  ''c.lock'' \<mapsto> \<lparr>content = [], mtime = 100, perms = 420\<rparr>],
       now := 101, child := 256,
       pipe_err := ''bad'' @ nl @ ''command exited with nonzero status 256'' @ nl,
       log := [Qr ''.+'', Open ''+>>'' ''c'', Flock ''c'' LOCK_SH, Seek ''c'',
               Open ''>>'' ''c.lock'', Flock ''c.lock'' LOCK_EX,
               Open ''+>>'' ''c'', Flock ''c'' LOCK_SH, Seek ''c'',
               Qx ''echo ok'']\<rparr>)"
proof -
  have q: "shell failing_env =
      (\<lambda>c t. \<lparr>cstatus = 256, cstdout = [], cstderr = ''bad'' @ nl, csecs = 1\<rparr>)"
    by (simp add: failing_env_def sample_env_def)
  have s: "snapshots failing_env sample_opts bare_world =
      (Inr (\<lambda>t. t \<noteq> [], [], [], [], 0),
       bare_world
        \<lparr>files := [''c'' \<mapsto> \<lparr>content = [], mtime = 100, perms = 420\<rparr>,
                    ''c.lock'' \<mapsto> \<lparr>content = [], mtime = 100, perms = 420\<rparr>],
         log := [Qr ''.+'', Open ''+>>'' ''c'', Flock ''c'' LOCK_SH, Seek ''c'',
                 Open ''>>'' ''c.lock'', Flock ''c.lock'' LOCK_EX,
                 Open ''+>>'' ''c'', Flock ''c'' LOCK_SH, Seek ''c'']\<rparr>)"
    by (simp add: run_defs failing_env_def sample_env_def sample_opts_def bare_world_def
          sample_qr_def)
  show ?thesis
    unfolding perl_main_from_snapshots [OF s]
    by (simp add: decide_run_nonzero q sample_opts_def die_def qx_def Let_def show_int_def
          show_nat_256 bare_world_def)
qed

lemma flood_run:
  "perl_main flood_env sample_opts sample_world =
    (Inr (),
     sample_world
      \<lparr>files := (files sample_world)
          (''c.lock'' \<mapsto> \<lparr>content = [], mtime = 100, perms = 420\<rparr>,
           ''c'' \<mapsto> \<lparr>content = ''7: Mon'' @ nl @ flood, mtime = 101, perms = 384\<rparr>),
       now := 101, pipe_out := flood,
       log := [Qr ''.+'', Open ''+>>'' ''c'', Flock ''c'' LOCK_SH, Seek ''c'', Close ''c'',
               Open ''>>'' ''c.lock'', Flock ''c.lock'' LOCK_EX,
               Open ''+>>'' ''c'', Flock ''c'' LOCK_SH, Seek ''c'', Close ''c'',
               Qx ''echo ok'',
               Open ''+>>'' ''c'', Chmod 384 ''c'', Flock ''c'' LOCK_EX, Seek ''c'',
               Truncate ''c'', Print ''c'' (''7: Mon'' @ nl @ flood), Close ''c'',
               Stdout flood]\<rparr>)"
proof -
  have n: "show_nat 7 = ''7''"
    by (simp add: show_nat.simps)
  have q: "os_error flood_env = (\<lambda>l ev. None)" "pid flood_env = 7"
    "localtime flood_env = (\<lambda>t. ''Mon'')"
    "shell flood_env = (\<lambda>c t. \<lparr>cstatus = 0, cstdout = flood, cstderr = [], csecs = 1\<rparr>)"
    by (simp_all add: flood_env_def sample_env_def)
  have s: "snapshots flood_env sample_opts sample_world =
      (Inr (\<lambda>t. t \<noteq> [], ''5: s'', ''5: s'', ''old'', 10),
       sample_world
        \<lparr>files := (files sample_world)
            (''c.lock'' \<mapsto> \<lparr>content = [], mtime = 100, perms = 420\<rparr>),
         log := [Qr ''.+'', Open ''+>>'' ''c'', Flock ''c'' LOCK_SH, Seek ''c'', Close ''c'',
                 Open ''>>'' ''c.lock'', Flock ''c.lock'' LOCK_EX,
                 Open ''+>>'' ''c'', Flock ''c'' LOCK_SH, Seek ''c'', Close ''c'']\<rparr>)"
    by (simp add: run_defs flood_env_def sample_env_def sample_opts_def sample_world_def sample_qr_def)
  show ?thesis
    unfolding perl_main_from_snapshots [OF s]
    by (simp add: decide_run_valid q sample_opts_def qx_def flood_length
          writeCache_ok then_do_def print_stdout_def sample_world_def n owner_rw_def)
qed

lemma writeCache_quiet:
  assumes "os_error e = (\<lambda>l ev. None)"
  shows "fst (writeCache e f data w) = Inr () \<and>
         files (snd (writeCache e f data w)) f =
           Some \<lparr>content = show_nat (pid e) @ '': '' @ localtime e (now w) @ nl @ data,
                 mtime = now w, perms = owner_rw\<rparr>"
proof -
  obtain d where d: "files (create_if_absent e f (w\<lparr>log := log w @ [Open ''+>>'' f]\<rparr>)) f = Some d"
    by simp
  show ?thesis
    using d
    by (cases d) (simp add: writeCache_def then_do_def or_die_def Let_def slurp_def assms)
qed

lemma ran_and_ended:
  assumes "perl_main e opts w = (Inr (), w')"
    and "Qx (cmd opts) \<in> set (drop (length (log w)) (log w'))"
  shows "map_option perms (files w' (cacheFile opts)) = Some owner_rw"
proof -
  from assms obtain v ow wr da ag w3 evs where
    nr: "\<not> (da \<noteq> [] \<and> v da \<and> 0 < cacheMaxAgeSec opts \<and> ag < cacheMaxAgeSec opts)"
    and rn: "da = [] \<or> \<not> v da \<or> wr = ow"
    and d: "decide e opts v ow (wr, da, ag) w3 = (Inr (), w')"
    by (elim executed_means_run)
  let ?c = "shell e (cmd opts) (now w3)"
  let ?wq = "snd (qx e (cmd opts) w3)"
  have st: "cstatus ?c = 0"
  proof (rule ccontr)
    assume "cstatus ?c \<noteq> 0"
    then show False using d nr rn by (simp add: decide_run_nonzero die_def)
  qed
  have va: "v (cstdout ?c)"
  proof (rule ccontr)
    assume "\<not> v (cstdout ?c)"
    then show False using d nr rn st by (simp add: decide_run_invalid die_def)
  qed
  have td: "then_do (writeCache e (cacheFile opts) (cstdout ?c))
      (\<lambda>_. print_stdout (cstdout ?c)) ?wq = (Inr (), w')"
    using d nr rn st va by (simp add: decide_run_valid)
  from td show ?thesis
  proof (cases rule: then_do_cases)
    case (died msg)
    then show ?thesis by simp
  next
    case (went x w2)
    then show ?thesis
      using writeCache_Inr_aux [where e=e and f="cacheFile opts" and data="cstdout ?c" and w="?wq"]
      by (auto simp: print_stdout_def)
  qed
qed

lemma changed_means_written:
  assumes "perl_main e opts w = (r, w')"
    and "\<And>fs. others e fs (cacheFile opts) = fs (cacheFile opts)"
    and "slurp (cacheFile opts) w' \<noteq> slurp (cacheFile opts) w \<or>
         (files w (cacheFile opts) \<noteq> None \<and>
          content_mtime (cacheFile opts) w' \<noteq> content_mtime (cacheFile opts) w)"
  shows "map_option perms (files w' (cacheFile opts)) = Some owner_rw"
proof (cases r)
  case (Inl msg)
  have "slurp (cacheFile opts) w' = slurp (cacheFile opts) w \<and>
         (\<forall>d. files w (cacheFile opts) = Some d \<longrightarrow>
            content_mtime (cacheFile opts) w' = Some (content d, mtime d))"
    using perl_main_died_effect [OF assms(1) [unfolded Inl] assms(2)] .
  then show ?thesis using assms(3) by (auto simp: content_mtime_def)
next
  case (Inr u)
  from assms(1) show ?thesis unfolding perl_main_def
  proof (cases rule: then_do_cases)
    case (died msg)
    then show ?thesis using Inr by simp
  next
    case (went x w3)
    obtain v ow wr da ag where x: "x = (v, ow, wr, da, ag)" by (cases x) auto
    have d: "decide e opts v ow (wr, da, ag) w3 = (r, w')" using went(2) by (simp add: x)
    have s3: "slurp (cacheFile opts) w3 = slurp (cacheFile opts) w"
      and "files w3 (cacheFile opts) \<noteq> None"
      using snapshots_slurp [OF went(1) assms(2)] by blast+
    then obtain d3 where f3: "files w3 (cacheFile opts) = Some d3" by blast
    from decide_effect [OF d f3] show ?thesis
    proof
      assume same: "content_mtime (cacheFile opts) w' = content_mtime (cacheFile opts) w3"
      then have "slurp (cacheFile opts) w' = slurp (cacheFile opts) w"
        using s3 content_mtime_slurp by metis
      with assms(3) obtain d0 where d0: "files w (cacheFile opts) = Some d0"
        and ne: "content_mtime (cacheFile opts) w' \<noteq> content_mtime (cacheFile opts) w"
        by auto
      have "files w3 (cacheFile opts) = Some d0"
        using snapshots_files [OF went(1) d0 assms(2)] .
      then have "content_mtime (cacheFile opts) w3 = content_mtime (cacheFile opts) w"
        using d0 by (simp add: content_mtime_def)
      with same ne show ?thesis by simp
    qed simp
  qed
qed


lemma coalescing_run:
  "perl_main busy_env sample_opts sample_world =
     (Inr (), busy_world3\<lparr>pipe_out := ''new'', log := log busy_world3 @ [Stdout ''new'']\<rparr>)"
proof -
  have s: "snapshots busy_env sample_opts sample_world =
      (Inr (\<lambda>t. t \<noteq> [], ''5: s'', ''7: t'', ''new'', 2), busy_world3)"
    by (simp add: run_defs busy_env_def sample_env_def sample_opts_def sample_world_def
          sample_qr_def busy_world3_def)
  have c: "cacheMaxAgeSec sample_opts = 0"
    by (simp add: sample_opts_def)
  have p: "pipe_out busy_world3 = []"
    by (simp add: busy_world3_def)
  show ?thesis
    unfolding perl_main_from_snapshots [OF s]
    by (simp add: decide_coalesce c p)
qed

lemma slurp_create [simp]: "slurp f (create_if_absent e g w) = slurp f w"
  by (auto simp: slurp_def create_if_absent_def split: option.splits)

lemma readCache_quiet_value:
  assumes "os_error e = (\<lambda>l ev. None)"
  shows "fst (readCache e f w) =
           (if slurp f w = [] then Inr ([], [], 0)
            else case parse_record (slurp f w) of
                   None \<Rightarrow> Inl (''invalid format of '' @ f @ nl)
                 | Some (wr, da) \<Rightarrow> Inr (wr, da, now w - stat_mtime f w))"
    and "files (snd (readCache e f w)) = files (create_if_absent e f w)"
    and "now (snd (readCache e f w)) = now w"
proof -
  have st: "slurp f w \<noteq> [] \<Longrightarrow>
      stat_mtime f (create_if_absent e f (w\<lparr>log := log w @ [Open ''+>>'' f]\<rparr>)
         \<lparr>log := log w @ [Open ''+>>'' f, Flock f LOCK_SH, Seek f]\<rparr>) = stat_mtime f w"
    by (auto simp: slurp_def stat_mtime_def create_if_absent_def split: option.splits)
  have fc: "files (create_if_absent e f (w\<lparr>log := log w @ [Open ''+>>'' f]\<rparr>)) =
      files (create_if_absent e f w)"
    by (auto simp: create_if_absent_def split: option.splits)
  show "fst (readCache e f w) =
           (if slurp f w = [] then Inr ([], [], 0)
            else case parse_record (slurp f w) of
                   None \<Rightarrow> Inl (''invalid format of '' @ f @ nl)
                 | Some (wr, da) \<Rightarrow> Inr (wr, da, now w - stat_mtime f w))"
    using st
    by (simp add: readCache_def then_do_def or_die_def die_def Let_def assms
          split: option.splits)
  show "files (snd (readCache e f w)) = files (create_if_absent e f w)"
    using fc
    by (simp add: readCache_def then_do_def or_die_def die_def Let_def assms
          split: option.splits)
  show "now (snd (readCache e f w)) = now w"
    by (simp add: readCache_def then_do_def or_die_def die_def Let_def assms
          split: option.splits)
qed






lemma behind_proj [simp]:
  "os_error (behind e w prev k) = os_error e"
  "qr (behind e w prev k) = qr e"
  "shell (behind e w prev k) = shell e"
  "toString (behind e w prev k) = toString e"
  "localtime (behind e w prev k) = localtime e"
  "new_perms (behind e w prev k) = new_perms e"
  "errno (behind e w prev k) = errno e"
  "others (behind e w prev k) = (\<lambda>fs. fs ++ files prev)"
  "waited (behind e w prev k) = nat (now prev - now w)"
  "pid (behind e w prev k) = pid e + k"
  by (simp_all add: behind_def)









lemma occurrences_simps [simp]:
  "occurrences ev [] = 0"
  "occurrences ev (x # rs) = length (filter (\<lambda>y. y = ev) (log (snd x))) + occurrences ev rs"
  by (simp_all add: occurrences_def)







section \<open>The claims\<close>

text \<open>
  C1. When the snapshot taken after the lock has a non-empty payload that the validator
  accepts, and the reuse test fails (as it always does with \<open>cacheMaxAgeSec = 0\<close>), the
  command is run if and only if the writer of that snapshot equals the writer of the snapshot
  taken before the lock. When the writers differ the program only prints the payload of the
  snapshot: it runs nothing and writes nothing.
\<close>

theorem run_iff_writer_unchanged:
  assumes "snapshots e opts w = (Inr (v, oldWriter, writer, data, age), w3)"
    and "data \<noteq> []" and "v data"
    and "\<not> (0 < cacheMaxAgeSec opts \<and> age < cacheMaxAgeSec opts)"
  shows "(Qx (cmd opts) \<in> set (drop (length (log w3)) (log (snd (perl_main e opts w))))
            \<longleftrightarrow> writer = oldWriter) \<and>
         (writer \<noteq> oldWriter \<longrightarrow>
            perl_main e opts w =
              (Inr (), w3\<lparr>pipe_out := pipe_out w3 @ data, log := log w3 @ [Stdout data]\<rparr>))"
proof (cases "writer = oldWriter")
  case True
  then obtain evs where
    "log (snd (decide e opts v oldWriter (writer, data, age) w3)) = log w3 @ Qx (cmd opts) # evs"
    using decide_run_log [where da=data and v=v and opts=opts and ag=age and wr=writer
        and ow=oldWriter and e=e and w=w3] assms(4) by blast
  then show ?thesis
    using True by (simp add: perl_main_from_snapshots [OF assms(1)])
next
  case False
  then show ?thesis
    using assms by (simp add: perl_main_from_snapshots [OF assms(1)] decide_coalesce)
qed

theorem run_iff_writer_unchanged_witness:
  "perl_main busy_env sample_opts sample_world =
     (Inr (), busy_world3\<lparr>pipe_out := ''new'', log := log busy_world3 @ [Stdout ''new'']\<rparr>) \<and>
   Qx ''echo ok'' \<notin> set (log busy_world3 @ [Stdout ''new''])"
proof -
  have s: "snapshots busy_env sample_opts sample_world =
      (Inr (\<lambda>t. t \<noteq> [], ''5: s'', ''7: t'', ''new'', 2), busy_world3)"
    by (simp add: run_defs busy_env_def sample_env_def sample_opts_def sample_world_def
          sample_qr_def busy_world3_def)
  have c: "cacheMaxAgeSec sample_opts = 0" "cmd sample_opts = ''echo ok''"
    by (simp_all add: sample_opts_def)
  have p: "pipe_out busy_world3 = []"
    by (simp add: busy_world3_def)
  have q: "Qx ''echo ok'' \<notin> set (log busy_world3 @ [Stdout ''new''])"
    by (simp add: busy_world3_def)
  show ?thesis
    using run_iff_writer_unchanged [OF s] c p q by simp
qed

text \<open>
  C2, as amended. The payload of the snapshot taken after the lock is returned with no
  command run and no cache write if and only if it is non-empty, the validator accepts it,
  and either \<open>cacheMaxAgeSec > 0\<close> with the age of the record strictly below
  \<open>cacheMaxAgeSec\<close> (the reuse test, which ends the program at once by \<open>exit(0)\<close>) or the
  writer of that snapshot differs from the writer of the snapshot taken before the lock (the
  coalescing of C1). The four conditions of the reuse test are exactly those under which the
  program ends by \<open>print $data; exit(0)\<close>; for the payload to be returned without a run
  and without a write they are sufficient but not necessary, as the run after the witness
  shows: there \<open>cacheMaxAgeSec = 0\<close>, and both wrappers return the payload that another
  process wrote during the wait, with nothing run and the data file as that process left it.
\<close>

theorem returned_without_run_iff:
  assumes "snapshots e opts w = (Inr (v, oldWriter, writer, data, age), w3)"
  shows "(Qx (cmd opts) \<notin> set (drop (length (log w3)) (log (snd (perl_main e opts w)))) \<longleftrightarrow>
            data \<noteq> [] \<and> v data \<and>
            ((0 < cacheMaxAgeSec opts \<and> age < cacheMaxAgeSec opts) \<or> writer \<noteq> oldWriter)) \<and>
         (data \<noteq> [] \<and> v data \<and>
          ((0 < cacheMaxAgeSec opts \<and> age < cacheMaxAgeSec opts) \<or> writer \<noteq> oldWriter) \<longrightarrow>
            perl_main e opts w =
              (Inr (), w3\<lparr>pipe_out := pipe_out w3 @ data,
                           log := log w3 @ Stdout data #
                             (if 0 < cacheMaxAgeSec opts \<and> age < cacheMaxAgeSec opts
                              then [Exit 0] else [])\<rparr>)) \<and>
         (log (snd (perl_main e opts w)) = log w3 @ [Stdout data, Exit 0] \<longleftrightarrow>
            data \<noteq> [] \<and> v data \<and> 0 < cacheMaxAgeSec opts \<and> age < cacheMaxAgeSec opts)"
proof -
  note pm = perl_main_from_snapshots [OF assms]
  consider (reuse) "data \<noteq> []" "v data" "0 < cacheMaxAgeSec opts" "age < cacheMaxAgeSec opts"
    | (coalesce) "data \<noteq> []" "v data"
        "\<not> (0 < cacheMaxAgeSec opts \<and> age < cacheMaxAgeSec opts)" "writer \<noteq> oldWriter"
    | (run) "\<not> (data \<noteq> [] \<and> v data \<and> 0 < cacheMaxAgeSec opts \<and> age < cacheMaxAgeSec opts)"
        "data = [] \<or> \<not> v data \<or> writer = oldWriter"
    by blast
  then show ?thesis
  proof cases
    case reuse
    then show ?thesis by (simp add: pm decide_reuse)
  next
    case coalesce
    then show ?thesis by (auto simp: pm decide_coalesce)
  next
    case run
    obtain evs where
      "log (snd (decide e opts v oldWriter (writer, data, age) w3)) = log w3 @ Qx (cmd opts) # evs"
      using decide_run_log [where da=data and v=v and opts=opts and ag=age and wr=writer
          and ow=oldWriter and e=e and w=w3] run by blast
    then show ?thesis using run by (auto simp: pm)
  qed
qed

theorem returned_without_run_iff_witness:
  "perl_main sample_env stale_opts sample_world =
     (Inr (), sample_world
        \<lparr>files := (files sample_world)
            (''c.lock'' \<mapsto> \<lparr>content = [], mtime = 100, perms = 420\<rparr>),
         pipe_out := ''old'',
         log := [Qr ''.+'', Open ''+>>'' ''c'', Flock ''c'' LOCK_SH, Seek ''c'', Close ''c'',
                 Open ''>>'' ''c.lock'', Flock ''c.lock'' LOCK_EX,
                 Open ''+>>'' ''c'', Flock ''c'' LOCK_SH, Seek ''c'', Close ''c'',
                 Stdout ''old'', Exit 0]\<rparr>)"
proof -
  have s: "snapshots sample_env stale_opts sample_world =
      (Inr (\<lambda>t. t \<noteq> [], ''5: s'', ''5: s'', ''old'', 10),
       sample_world
        \<lparr>files := (files sample_world)
            (''c.lock'' \<mapsto> \<lparr>content = [], mtime = 100, perms = 420\<rparr>),
         log := [Qr ''.+'', Open ''+>>'' ''c'', Flock ''c'' LOCK_SH, Seek ''c'', Close ''c'',
                 Open ''>>'' ''c.lock'', Flock ''c.lock'' LOCK_EX,
                 Open ''+>>'' ''c'', Flock ''c'' LOCK_SH, Seek ''c'', Close ''c'']\<rparr>)"
    by (simp add: run_defs sample_env_def stale_opts_def sample_opts_def sample_world_def sample_qr_def)
  have c: "cacheMaxAgeSec stale_opts = 30"
    by (simp add: stale_opts_def sample_opts_def)
  show ?thesis
    using returned_without_run_iff [OF s] c by (simp add: sample_world_def)
qed

theorem returned_without_reuse_counterexample:
  "\<not> 0 < cacheMaxAgeSec sample_opts \<and>
   fst (spawnBurst busy_env sample_opts sample_world) = Inr (ascii ''new'') \<and>
   fst (spawnBurstSync busy_env sample_opts sample_world) = Inr (ascii ''new'') \<and>
   log (snd (spawnBurst busy_env sample_opts sample_world)) =
     [Qr ''.+'', Open ''+>>'' ''c'', Flock ''c'' LOCK_SH, Seek ''c'', Close ''c'',
      Open ''>>'' ''c.lock'', Flock ''c.lock'' LOCK_EX,
      Open ''+>>'' ''c'', Flock ''c'' LOCK_SH, Seek ''c'', Close ''c'', Stdout ''new''] \<and>
   files (snd (spawnBurst busy_env sample_opts sample_world)) ''c'' =
     Some \<lparr>content = ''7: t'' @ nl @ ''new'', mtime = 103, perms = 384\<rparr> \<and>
   others busy_env (files sample_world) ''c'' =
     Some \<lparr>content = ''7: t'' @ nl @ ''new'', mtime = 103, perms = 384\<rparr>"
proof -
  have c: "cacheMaxAgeSec sample_opts = 0" "cmd sample_opts = ''echo ok''"
    by (simp_all add: sample_opts_def)
  have t: "toString busy_env = ascii"
    by (simp add: busy_env_def sample_env_def)
  have b: "pipe_err busy_world3 = []" "log busy_world3 =
      [Qr ''.+'', Open ''+>>'' ''c'', Flock ''c'' LOCK_SH, Seek ''c'', Close ''c'',
       Open ''>>'' ''c.lock'', Flock ''c.lock'' LOCK_EX,
       Open ''+>>'' ''c'', Flock ''c'' LOCK_SH, Seek ''c'', Close ''c'']"
    "files busy_world3 ''c'' = Some \<lparr>content = ''7: t'' @ nl @ ''new'', mtime = 103, perms = 384\<rparr>"
    by (simp_all add: busy_world3_def)
  have sp: "spawn_perl busy_env sample_opts sample_world =
      (\<lparr>status = Some 0, stdout = ''new'', stderr = []\<rparr>,
       busy_world3\<lparr>pipe_out := ''new'', log := log busy_world3 @ [Stdout ''new'']\<rparr>)"
    by (simp add: spawn_perl_def fresh_sample_world coalescing_run b)
  have 1: "spawnBurst busy_env sample_opts sample_world =
      (Inr (ascii ''new''),
       busy_world3\<lparr>pipe_out := ''new'', log := log busy_world3 @ [Stdout ''new'']\<rparr>)"
    by (simp add: spawnBurst_def sp processResult_def t)
  have ss: "spawnSync_perl busy_env sample_opts sample_world =
      (\<lparr>status = Some 0, stdout = ''new'', stderr = []\<rparr>,
       busy_world3\<lparr>pipe_out := ''new'', log := log busy_world3 @ [Stdout ''new'']\<rparr>)"
    by (simp add: spawnSync_perl_def sp Let_def b c maxBuffer_def)
  have 2: "fst (spawnBurstSync busy_env sample_opts sample_world) = Inr (ascii ''new'')"
    by (simp add: spawnBurstSync_def ss processResult_def t)
  have 3: "others busy_env (files sample_world) ''c'' =
     Some \<lparr>content = ''7: t'' @ nl @ ''new'', mtime = 103, perms = 384\<rparr>"
    by (simp add: busy_env_def sample_env_def)
  show ?thesis
    using 2 3 by (simp add: 1 b c)
qed

text \<open>
  C3, as amended. When the command that was run exits with status 0 and empty output, and
  the validator does not match the empty string, the program dies with
  \<open>response is not valid\<close> and writes nothing: after the second \<open>readCache\<close> its only call
  is the \<open>qx\<close>. The source has no test of its own for empty output, so a validator that
  matches the empty string lets the empty payload through to \<open>writeCache\<close>, as the run after
  the witness shows.
\<close>

theorem empty_output_rejected:
  assumes "snapshots e opts w = (Inr (v, oldWriter, writer, data, age), w3)"
    and "Qx (cmd opts) \<in> set (drop (length (log w3)) (log (snd (perl_main e opts w))))"
    and "cstatus (shell e (cmd opts) (now w3)) = 0"
    and "cstdout (shell e (cmd opts) (now w3)) = []"
    and "\<not> v []"
  shows "perl_main e opts w =
           (Inl (''response is not valid: '' @ nl),
            w3\<lparr>now := now w3 + int (csecs (shell e (cmd opts) (now w3))),
                child := 0,
                pipe_err := pipe_err w3 @ cstderr (shell e (cmd opts) (now w3)) @
                            ''response is not valid: '' @ nl,
                log := log w3 @ [Qx (cmd opts)]\<rparr>)"
proof -
  note pm = perl_main_from_snapshots [OF assms(1)]
  have nr: "\<not> (data \<noteq> [] \<and> v data \<and> 0 < cacheMaxAgeSec opts \<and> age < cacheMaxAgeSec opts)"
    using assms(2) by (auto simp: pm decide_reuse)
  have rn: "data = [] \<or> \<not> v data \<or> writer = oldWriter"
  proof (rule ccontr)
    assume "\<not> (data = [] \<or> \<not> v data \<or> writer = oldWriter)"
    then have "data \<noteq> []" "v data" "writer \<noteq> oldWriter" by auto
    with nr have "decide e opts v oldWriter (writer, data, age) w3 =
        (Inr (), w3\<lparr>pipe_out := pipe_out w3 @ data, log := log w3 @ [Stdout data]\<rparr>)"
      by (intro decide_coalesce) auto
    with assms(2) show False by (simp add: pm)
  qed
  have "decide e opts v oldWriter (writer, data, age) w3 =
      die (''response is not valid: '' @ cstdout (shell e (cmd opts) (now w3)) @ nl)
        (snd (qx e (cmd opts) w3))"
    using nr rn assms(3-5) by (intro decide_run_invalid) simp_all
  then show ?thesis
    using assms(3,4) by (simp add: pm die_def qx_def Let_def)
qed

theorem empty_output_rejected_witness:
  "perl_main silent_env strict_opts empty_world =
     (Inl (''response is not valid: '' @ nl),
      empty_world
        \<lparr>files := (files empty_world)
            (''c.lock'' \<mapsto> \<lparr>content = [], mtime = 100, perms = 420\<rparr>),
         now := 101,
         pipe_err := ''response is not valid: '' @ nl,
         log := [Qr ''.+'', Open ''+>>'' ''c'', Flock ''c'' LOCK_SH, Seek ''c'',
                 Open ''>>'' ''c.lock'', Flock ''c.lock'' LOCK_EX,
                 Open ''+>>'' ''c'', Flock ''c'' LOCK_SH, Seek ''c'', Qx ''true'']\<rparr>)"
proof -
  let ?w3 = "empty_world
            \<lparr>files := (files empty_world)
                (''c.lock'' \<mapsto> \<lparr>content = [], mtime = 100, perms = 420\<rparr>),
             log := [Qr ''.+'', Open ''+>>'' ''c'', Flock ''c'' LOCK_SH, Seek ''c'',
                     Open ''>>'' ''c.lock'', Flock ''c.lock'' LOCK_EX,
                     Open ''+>>'' ''c'', Flock ''c'' LOCK_SH, Seek ''c'']\<rparr>"
  have q: "shell silent_env = (\<lambda>c t. \<lparr>cstatus = 0, cstdout = [], cstderr = [], csecs = 1\<rparr>)"
    by (simp add: silent_env_def sample_env_def)
  have s: "snapshots silent_env strict_opts empty_world = (Inr (\<lambda>t. t \<noteq> [], [], [], [], 0), ?w3)"
    by (simp add: silent_snapshots [of "''.+''", folded strict_opts_def] sample_qr_def)
  have pm: "perl_main silent_env strict_opts empty_world =
      die (''response is not valid: '' @ nl) (snd (qx silent_env ''true'' ?w3))"
    unfolding perl_main_from_snapshots [OF s]
    by (simp add: decide_run_invalid q strict_opts_def)
  have x: "Qx (cmd strict_opts) \<in> set (drop (length (log ?w3))
      (log (snd (perl_main silent_env strict_opts empty_world))))"
    unfolding pm by (simp add: strict_opts_def)
  have c: "cstatus (shell silent_env (cmd strict_opts) (now ?w3)) = 0"
    "cstdout (shell silent_env (cmd strict_opts) (now ?w3)) = []"
    by (simp_all add: q)
  show ?thesis
    using empty_output_rejected [OF s x c] by (simp add: q strict_opts_def empty_world_def)
qed

theorem empty_output_counterexample:
  "cstatus (shell silent_env (cmd lax_opts) 100) = 0 \<and>
   cstdout (shell silent_env (cmd lax_opts) 100) = [] \<and>
   perl_main silent_env lax_opts empty_world =
     (Inr (),
      empty_world
        \<lparr>files := (files empty_world)
            (''c.lock'' \<mapsto> \<lparr>content = [], mtime = 100, perms = 420\<rparr>,
             ''c'' \<mapsto> \<lparr>content = ''7: Mon'' @ nl, mtime = 101, perms = 384\<rparr>),
         now := 101,
         log := [Qr ''.*'', Open ''+>>'' ''c'', Flock ''c'' LOCK_SH, Seek ''c'',
                 Open ''>>'' ''c.lock'', Flock ''c.lock'' LOCK_EX,
                 Open ''+>>'' ''c'', Flock ''c'' LOCK_SH, Seek ''c'',
                 Qx ''true'',
                 Open ''+>>'' ''c'', Chmod 384 ''c'', Flock ''c'' LOCK_EX, Seek ''c'',
                 Truncate ''c'', Print ''c'' (''7: Mon'' @ nl), Close ''c'', Stdout []]\<rparr>)"
proof -
  have n: "show_nat 7 = ''7''"
    by (simp add: show_nat.simps)
  have q: "os_error silent_env = (\<lambda>l ev. None)" "pid silent_env = 7"
    "localtime silent_env = (\<lambda>t. ''Mon'')"
    "shell silent_env = (\<lambda>c t. \<lparr>cstatus = 0, cstdout = [], cstderr = [], csecs = 1\<rparr>)"
    by (simp_all add: silent_env_def sample_env_def)
  have s: "snapshots silent_env lax_opts empty_world =
     (Inr (\<lambda>t. True, [], [], [], 0),
          empty_world
            \<lparr>files := (files empty_world)
                (''c.lock'' \<mapsto> \<lparr>content = [], mtime = 100, perms = 420\<rparr>),
             log := [Qr ''.*'', Open ''+>>'' ''c'', Flock ''c'' LOCK_SH, Seek ''c'',
                     Open ''>>'' ''c.lock'', Flock ''c.lock'' LOCK_EX,
                     Open ''+>>'' ''c'', Flock ''c'' LOCK_SH, Seek ''c'']\<rparr>)"
    by (simp add: silent_snapshots [of "''.*''", folded lax_opts_def] sample_qr_def)
  show ?thesis
    unfolding perl_main_from_snapshots [OF s]
    by (simp add: decide_run_valid q lax_opts_def qx_def
          writeCache_ok then_do_def print_stdout_def empty_world_def n owner_rw_def)
qed

text \<open>
  C4, as amended. \<open>writeCache\<close> does lock: a successful write issues, in this order, \<open>open\<close>,
  \<open>chmod 0600\<close>, \<open>flock LOCK_EX\<close> on the data file itself, \<open>seek\<close>, \<open>truncate\<close>, the \<open>print\<close>
  of the writer line followed by the payload, and \<open>close\<close>; the \<open>flock\<close> must have succeeded,
  and unless the \<open>print\<close> fails the file then holds exactly the writer line and the payload,
  with mode 0600. The run after the witness shows the \<open>flock\<close> in the calls of a write, and a
  write that dies because this \<open>flock\<close> fails.
\<close>

theorem writeCache_calls:
  assumes "writeCache e f data w = (Inr u, w')"
  shows "log w' = log w @ [Open ''+>>'' f, Chmod owner_rw f, Flock f LOCK_EX, Seek f, Truncate f,
            Print f (show_nat (pid e) @ '': '' @ localtime e (now w) @ nl @ data), Close f] \<and>
         os_error e (log w @ [Open ''+>>'' f, Chmod owner_rw f]) (Flock f LOCK_EX) = None \<and>
         (os_error e (log w @ [Open ''+>>'' f, Chmod owner_rw f, Flock f LOCK_EX, Seek f, Truncate f])
            (Print f (show_nat (pid e) @ '': '' @ localtime e (now w) @ nl @ data)) = None \<longrightarrow>
          files w' f = Some \<lparr>content = show_nat (pid e) @ '': '' @ localtime e (now w) @ nl @ data,
                             mtime = now w, perms = owner_rw\<rparr>)"
proof -
  have "case writeCache e f data w of
      (Inl m, w') \<Rightarrow> True
    | (Inr u, w') \<Rightarrow>
        log w' = log w @ [Open ''+>>'' f, Chmod owner_rw f, Flock f LOCK_EX, Seek f, Truncate f,
            Print f (show_nat (pid e) @ '': '' @ localtime e (now w) @ nl @ data), Close f] \<and>
         os_error e (log w @ [Open ''+>>'' f, Chmod owner_rw f]) (Flock f LOCK_EX) = None \<and>
         (os_error e (log w @ [Open ''+>>'' f, Chmod owner_rw f, Flock f LOCK_EX, Seek f, Truncate f])
            (Print f (show_nat (pid e) @ '': '' @ localtime e (now w) @ nl @ data)) = None \<longrightarrow>
          files w' f = Some \<lparr>content = show_nat (pid e) @ '': '' @ localtime e (now w) @ nl @ data,
                             mtime = now w, perms = owner_rw\<rparr>)"
    by (simp add: writeCache_def then_do_def or_die_def die_def Let_def slurp_def
          split: option.splits)
  with assms show ?thesis by simp
qed

theorem writeCache_calls_witness:
  "log (snd (writeCache sample_env ''c'' ''ok'' sample_world)) =
     [Open ''+>>'' ''c'', Chmod 384 ''c'', Flock ''c'' LOCK_EX, Seek ''c'', Truncate ''c'',
      Print ''c'' (''7: Mon'' @ nl @ ''ok''), Close ''c''] \<and>
   files (snd (writeCache sample_env ''c'' ''ok'' sample_world)) ''c'' =
     Some \<lparr>content = ''7: Mon'' @ nl @ ''ok'', mtime = 100, perms = 384\<rparr>"
proof -
  have n: "show_nat 7 = ''7''"
    by (simp add: show_nat.simps)
  have q: "os_error sample_env = (\<lambda>l ev. None)" "pid sample_env = 7"
    "localtime sample_env = (\<lambda>t. ''Mon'')"
    by (simp_all add: sample_env_def)
  have f: "files sample_world ''c'' \<noteq> None" "log sample_world = []" "now sample_world = 100"
    by (simp_all add: sample_world_def)
  have w: "writeCache sample_env ''c'' ''ok'' sample_world =
      (Inr (), snd (writeCache sample_env ''c'' ''ok'' sample_world))"
    by (simp add: writeCache_ok [OF q(1) f(1)])
  show ?thesis
    using writeCache_calls [OF w] by (simp add: q f n owner_rw_def)
qed

theorem writeCache_locks_counterexample:
  "Flock ''c'' LOCK_EX \<in> set (log (snd (writeCache sample_env ''c'' ''ok'' sample_world))) \<and>
   fst (writeCache jammed_env ''c'' ''ok'' sample_world) =
     Inl (''flock c LOCK_EX: Interrupted system call'' @ nl)"
proof -
  have q: "os_error sample_env = (\<lambda>l ev. None)"
    by (simp add: sample_env_def)
  have f: "files sample_world ''c'' \<noteq> None"
    by (simp add: sample_world_def)
  have 1: "Flock ''c'' LOCK_EX \<in> set (log (snd (writeCache sample_env ''c'' ''ok'' sample_world)))"
    by (simp add: writeCache_ok [OF q f])
  have 2: "fst (writeCache jammed_env ''c'' ''ok'' sample_world) =
     Inl (''flock c LOCK_EX: Interrupted system call'' @ nl)"
    by (simp add: writeCache_def then_do_def or_die_def die_def jammed_env_def sample_env_def
          sample_world_def create_if_absent_def set_perms_def)
  from 1 2 show ?thesis by simp
qed

text \<open>
  C6, as amended. When the Perl program dies (the validator does not compile, a call on the
  sidecar or on the data file fails, the data file is ill-formed, the command exits with a
  non-zero status, its output is not valid), both wrappers throw and nothing has been
  written to the data file: one that existed when the invocation started has the content
  and the modification time it had, and one that was missing is either still missing or has
  been created, empty, by a read. No other process touches the data file while the
  invocation waits for the lock. The runs after the witness show the two ways in which an
  invocation that fails leaves a data file that is not as before: on a world without data
  file the invocation whose command exits with status 1 creates the file; and
  \<open>spawnBurstSync\<close> throws, with status \<open>null\<close>, after the cache was rewritten, when the
  payload exceeds \<open>maxBuffer\<close> (here it is twice as long).
\<close>

theorem failure_leaves_cache_untouched:
  assumes "perl_main e opts (fresh w) = (Inl msg, w')"
    and "\<And>fs. others e fs (cacheFile opts) = fs (cacheFile opts)"
  shows "(case files w (cacheFile opts) of
            Some d \<Rightarrow> content_mtime (cacheFile opts) w' = Some (content d, mtime d)
          | None \<Rightarrow> content_mtime (cacheFile opts) w' = None \<or>
                    (\<exists>t. content_mtime (cacheFile opts) w' = Some ([], t))) \<and>
         (\<exists>m. spawnBurst e opts w = (Inl m, w')) \<and>
         (\<exists>m ws. spawnBurstSync e opts w = (Inl m, ws) \<and>
            content_mtime (cacheFile opts) ws = content_mtime (cacheFile opts) w')"
proof -
  have eff: "slurp (cacheFile opts) w' = slurp (cacheFile opts) (fresh w) \<and>
         (\<forall>d. files (fresh w) (cacheFile opts) = Some d \<longrightarrow>
            content_mtime (cacheFile opts) w' = Some (content d, mtime d))"
    by (rule perl_main_died_effect [OF assms])
  have 1: "case files w (cacheFile opts) of
            Some d \<Rightarrow> content_mtime (cacheFile opts) w' = Some (content d, mtime d)
          | None \<Rightarrow> content_mtime (cacheFile opts) w' = None \<or>
                    (\<exists>t. content_mtime (cacheFile opts) w' = Some ([], t))"
  proof (cases "files w (cacheFile opts)")
    case None
    then have "slurp (cacheFile opts) w' = []" using eff by (simp add: slurp_def)
    then show ?thesis using None
      by (auto simp: slurp_def content_mtime_def split: option.splits)
  next
    case (Some d)
    then show ?thesis using eff by simp
  qed
  have "status (fst (spawn_perl e opts w)) \<noteq> Some 0"
    by (simp add: spawn_perl_died [OF assms(1)] die_status_nonzero)
  then obtain m where "processResult e ''spawnBurst'' (fst (spawn_perl e opts w)) = Inl m"
    using processResult_throws by blast
  then have 2: "\<exists>m. spawnBurst e opts w = (Inl m, w')"
    by (simp add: spawnBurst_def spawn_perl_died [OF assms(1)])
  show ?thesis using 1 2 sync_died [OF assms] by simp
qed

theorem failure_leaves_cache_untouched_witness:
  "content_mtime ''c'' sample_world = Some (''5: s'' @ nl @ ''old'', 90) \<and>
   Qx ''echo ok'' \<in> set (log (snd (spawnBurst failing_env sample_opts sample_world))) \<and>
   (\<exists>m. fst (spawnBurst failing_env sample_opts sample_world) = Inl m) \<and>
   content_mtime ''c'' (snd (spawnBurst failing_env sample_opts sample_world)) =
     Some (''5: s'' @ nl @ ''old'', 90) \<and>
   (\<exists>m. fst (spawnBurstSync failing_env sample_opts sample_world) = Inl m) \<and>
   content_mtime ''c'' (snd (spawnBurstSync failing_env sample_opts sample_world)) =
     Some (''5: s'' @ nl @ ''old'', 90)"
proof -
  have pm: "perl_main failing_env sample_opts (fresh sample_world) =
      (Inl (''command exited with nonzero status 256'' @ nl),
       snd (perl_main failing_env sample_opts sample_world))"
    by (simp add: fresh_sample_world failing_run)
  have o: "\<And>fs. others failing_env fs (cacheFile sample_opts) = fs (cacheFile sample_opts)"
    by (simp add: failing_env_def sample_env_def)
  have f: "files sample_world ''c'' =
      Some \<lparr>content = ''5: s'' @ nl @ ''old'', mtime = 90, perms = 420\<rparr>"
    "cacheFile sample_opts = ''c''"
    by (simp_all add: sample_world_def sample_opts_def)
  have c: "content_mtime ''c'' sample_world = Some (''5: s'' @ nl @ ''old'', 90)"
    by (simp add: content_mtime_def sample_world_def)
  have x: "Qx ''echo ok'' \<in> set (log (snd (spawnBurst failing_env sample_opts sample_world)))"
    by (simp add: spawnBurst_def failing_spawn)
  show ?thesis
    using failure_leaves_cache_untouched [OF pm o] c x
    by (auto simp: f)
qed

theorem failure_mutates_cache_counterexample:
  "content_mtime ''c'' bare_world = None \<and>
   fst (spawnBurst failing_env sample_opts bare_world) =
     Inl (ascii (''spawnBurst() failed with status 1: bad'' @ nl @
                 ''command exited with nonzero status 256'')) \<and>
   content_mtime ''c'' (snd (spawnBurst failing_env sample_opts bare_world)) = Some ([], 100) \<and>
   content_mtime ''c'' sample_world = Some (''5: s'' @ nl @ ''old'', 90) \<and>
   fst (spawnBurstSync flood_env sample_opts sample_world) =
     Inl (ascii ''spawnBurstSync() failed with status null: <empty stderr>'') \<and>
   content_mtime ''c'' (snd (spawnBurstSync flood_env sample_opts sample_world)) =
     Some (''7: Mon'' @ nl @ flood, 101)"
proof -
  have fb: "fresh bare_world = bare_world"
    by (simp add: fresh_def bare_world_def)
  have e0: "errno failing_env = 0" "toString failing_env = ascii"
    "toString flood_env = ascii" "shell flood_env =
       (\<lambda>c t. \<lparr>cstatus = 0, cstdout = flood, cstderr = [], csecs = 1\<rparr>)"
    by (simp_all add: failing_env_def flood_env_def sample_env_def)
  have pb: "pipe_out bare_world = []"
    by (simp add: bare_world_def)
  have 1: "content_mtime ''c'' bare_world = None"
    by (simp add: content_mtime_def bare_world_def)
  have sp: "spawn_perl failing_env sample_opts bare_world =
      (\<lparr>status = Some 1, stdout = [],
        stderr = ''bad'' @ nl @ ''command exited with nonzero status 256'' @ nl\<rparr>,
       snd (perl_main failing_env sample_opts bare_world))"
    by (simp add: spawn_perl_def fb bare_failing_run die_status_def e0 pb)
  have 2: "fst (spawnBurst failing_env sample_opts bare_world) =
     Inl (ascii (''spawnBurst() failed with status 1: bad'' @ nl @
                 ''command exited with nonzero status 256''))"
    using trim_ascii_bad
    by (simp add: spawnBurst_def sp processResult_def Let_def e0 show_status_def show_int_def
          show_nat_1 ascii_def)
  have 3: "content_mtime ''c'' (snd (spawnBurst failing_env sample_opts bare_world)) = Some ([], 100)"
    by (simp add: spawnBurst_def sp bare_failing_run content_mtime_def)
  have 4: "content_mtime ''c'' sample_world = Some (''5: s'' @ nl @ ''old'', 90)"
    by (simp add: content_mtime_def sample_world_def)
  have ps: "pipe_err sample_world = []" "pipe_out sample_world = []"
    by (simp_all add: sample_world_def)
  have sf: "spawn_perl flood_env sample_opts sample_world =
      (\<lparr>status = Some 0, stdout = flood, stderr = []\<rparr>,
       snd (perl_main flood_env sample_opts sample_world))"
    by (simp add: spawn_perl_def fresh_sample_world flood_run ps)
  have pq: "pipe_err (snd (snapshots flood_env sample_opts (fresh sample_world))) = []"
  proof -
    obtain r w3 where s: "snapshots flood_env sample_opts (fresh sample_world) = (r, w3)"
      by (cases "snapshots flood_env sample_opts (fresh sample_world)") auto
    have "r = Inr (\<lambda>t. t \<noteq> [], ''5: s'', ''5: s'', ''old'', 10)"
      using s
      by (simp add: run_defs flood_env_def sample_env_def sample_opts_def sample_world_def
            sample_qr_def fresh_def)
    then have "pipe_err w3 = []"
      using snapshots_pipes s by fastforce
    then show ?thesis by (simp add: s)
  qed
  have ss: "spawnSync_perl flood_env sample_opts sample_world =
      (\<lparr>status = None, stdout = take maxBuffer flood, stderr = []\<rparr>,
       snd (perl_main flood_env sample_opts sample_world))"
    by (simp add: spawnSync_perl_def sf Let_def pq flood_length e0)
  have 5: "fst (spawnBurstSync flood_env sample_opts sample_world) =
     Inl (ascii ''spawnBurstSync() failed with status null: <empty stderr>'')"
    by (simp add: spawnBurstSync_def ss processResult_def Let_def e0 show_status_def trim_def
          ascii_def)
  have 6: "content_mtime ''c'' (snd (spawnBurstSync flood_env sample_opts sample_world)) =
     Some (''7: Mon'' @ nl @ flood, 101)"
    by (simp add: spawnBurstSync_def ss flood_run content_mtime_def)
  from 1 2 3 4 5 6 show ?thesis by simp
qed



text \<open>
  C8, as amended. After every successful \<open>writeCache\<close> the data file has mode 0600, which
  leaves no bit for group or others; and when no system call fails \<open>writeCache\<close> does
  succeed, whatever the mode of the file before and also when the file was missing, and
  leaves the writer line and the payload under mode 0600. At the level of an invocation: one
  that ends well after running the command leaves the data file with mode 0600, and so does
  every invocation after which the content of the data file, or the modification time of a
  data file that existed, is not what it was. (The \<open>chmod\<close> comes before the write, and a
  failed \<open>chmod\<close> prevents the write.) The mode is not 0600 after every operation that
  changes the file, though: a read of a missing data file creates it, empty, with the mode
  that the umask gives, and the file keeps that mode until the first write. In the witness
  the mode of the data file is 0644 before the write and 0600 after it; the run after the
  witness is an invocation on a world without data file whose command exits with status 1,
  and it leaves the data file, empty, with mode 0644.
\<close>

theorem owner_only_after_write:
  "(writeCache e f data w = (Inr u, w1) \<longrightarrow> map_option perms (files w1 f) = Some owner_rw) \<and>
   (os_error e = (\<lambda>l ev. None) \<longrightarrow>
      fst (writeCache e f data w) = Inr () \<and>
      files (snd (writeCache e f data w)) f =
        Some \<lparr>content = show_nat (pid e) @ '': '' @ localtime e (now w) @ nl @ data,
              mtime = now w, perms = owner_rw\<rparr>) \<and>
   (perl_main e opts w0 = (Inr (), w') \<and>
    Qx (cmd opts) \<in> set (drop (length (log w0)) (log w')) \<longrightarrow>
      map_option perms (files w' (cacheFile opts)) = Some owner_rw) \<and>
   (perl_main e opts w0 = (r, w') \<and>
    (\<forall>fs. others e fs (cacheFile opts) = fs (cacheFile opts)) \<and>
    (slurp (cacheFile opts) w' \<noteq> slurp (cacheFile opts) w0 \<or>
     (files w0 (cacheFile opts) \<noteq> None \<and>
      content_mtime (cacheFile opts) w' \<noteq> content_mtime (cacheFile opts) w0)) \<longrightarrow>
      map_option perms (files w' (cacheFile opts)) = Some owner_rw) \<and>
   (os_error e = (\<lambda>l ev. None) \<and> files w2 f = None \<longrightarrow>
      fst (readCache e f w2) = Inr ([], [], 0) \<and>
      files (snd (readCache e f w2)) f =
        Some \<lparr>content = [], mtime = now w2, perms = new_perms e\<rparr>) \<and>
   owner_rw = 6 * 8 * 8 \<and> owner_rw mod 64 = 0"
proof -
  have 1: "writeCache e f data w = (Inr u, w1) \<longrightarrow> map_option perms (files w1 f) = Some owner_rw"
    using writeCache_Inr_aux [where e=e and f=f and data=data and w=w] by auto
  have 2: "os_error e = (\<lambda>l ev. None) \<longrightarrow>
      fst (writeCache e f data w) = Inr () \<and>
      files (snd (writeCache e f data w)) f =
        Some \<lparr>content = show_nat (pid e) @ '': '' @ localtime e (now w) @ nl @ data,
              mtime = now w, perms = owner_rw\<rparr>"
    using writeCache_quiet by blast
  have 3: "perl_main e opts w0 = (Inr (), w') \<and>
    Qx (cmd opts) \<in> set (drop (length (log w0)) (log w')) \<longrightarrow>
      map_option perms (files w' (cacheFile opts)) = Some owner_rw"
    using ran_and_ended by blast
  have 4: "perl_main e opts w0 = (r, w') \<and>
    (\<forall>fs. others e fs (cacheFile opts) = fs (cacheFile opts)) \<and>
    (slurp (cacheFile opts) w' \<noteq> slurp (cacheFile opts) w0 \<or>
     (files w0 (cacheFile opts) \<noteq> None \<and>
      content_mtime (cacheFile opts) w' \<noteq> content_mtime (cacheFile opts) w0)) \<longrightarrow>
      map_option perms (files w' (cacheFile opts)) = Some owner_rw"
    using changed_means_written [where e=e and opts=opts and w=w0 and r=r and w'=w'] by blast
  have 5: "os_error e = (\<lambda>l ev. None) \<and> files w2 f = None \<longrightarrow>
      fst (readCache e f w2) = Inr ([], [], 0) \<and>
      files (snd (readCache e f w2)) f =
        Some \<lparr>content = [], mtime = now w2, perms = new_perms e\<rparr>"
  proof (intro impI, elim conjE)
    assume q: "os_error e = (\<lambda>l ev. None)" and n: "files w2 f = None"
    have "slurp f w2 = []" using n by (simp add: slurp_def)
    then have "fst (readCache e f w2) = Inr ([], [], 0)"
      unfolding readCache_quiet_value(1) [OF q] by simp
    moreover have "files (snd (readCache e f w2)) f =
        Some \<lparr>content = [], mtime = now w2, perms = new_perms e\<rparr>"
      unfolding readCache_quiet_value(2) [OF q] using n by simp
    ultimately show "fst (readCache e f w2) = Inr ([], [], 0) \<and>
      files (snd (readCache e f w2)) f =
        Some \<lparr>content = [], mtime = now w2, perms = new_perms e\<rparr>" by simp
  qed
  show ?thesis using 1 2 3 4 5 by (simp add: owner_rw_def)
qed

theorem owner_only_after_write_witness:
  "map_option perms (files sample_world ''c'') = Some 420 \<and>
   fst (writeCache sample_env ''c'' ''ok'' sample_world) = Inr () \<and>
   files (snd (writeCache sample_env ''c'' ''ok'' sample_world)) ''c'' =
     Some \<lparr>content = ''7: Mon'' @ nl @ ''ok'', mtime = 100, perms = 384\<rparr> \<and>
   fst (perl_main sample_env sample_opts sample_world) = Inr () \<and>
   Qx ''echo ok'' \<in> set (log (snd (perl_main sample_env sample_opts sample_world))) \<and>
   slurp ''c'' (snd (perl_main sample_env sample_opts sample_world)) \<noteq> slurp ''c'' sample_world \<and>
   map_option perms (files (snd (perl_main sample_env sample_opts sample_world)) ''c'') = Some 384 \<and>
   fst (readCache sample_env ''c'' bare_world) = Inr ([], [], 0) \<and>
   files (snd (readCache sample_env ''c'' bare_world)) ''c'' =
     Some \<lparr>content = [], mtime = 100, perms = 420\<rparr>"
proof -
  have n: "show_nat 7 = ''7''"
    by (simp add: show_nat.simps)
  have q: "os_error sample_env = (\<lambda>l ev. None)" "pid sample_env = 7"
    "localtime sample_env = (\<lambda>t. ''Mon'')" "new_perms sample_env = 420"
    by (simp_all add: sample_env_def)
  have p0: "map_option perms (files sample_world ''c'') = Some 420" "now sample_world = 100"
    "log sample_world = []"
    by (simp_all add: sample_world_def)
  have b0: "files bare_world ''c'' = None" "now bare_world = 100"
    by (simp_all add: bare_world_def)
  have pm: "perl_main sample_env sample_opts sample_world =
      (Inr (), snd (perl_main sample_env sample_opts sample_world))"
    by (simp add: writing_run)
  have pf: "fst (perl_main sample_env sample_opts sample_world) = Inr ()"
    by (simp add: writing_run)
  have c: "cacheFile sample_opts = ''c''" "cmd sample_opts = ''echo ok''"
    by (simp_all add: sample_opts_def)
  have x: "Qx ''echo ok'' \<in> set (log (snd (perl_main sample_env sample_opts sample_world)))"
    by (simp add: writing_run)
  have o: "\<forall>fs. others sample_env fs (cacheFile sample_opts) = fs (cacheFile sample_opts)"
    by (simp add: sample_env_def)
  have fw: "files (snd (perl_main sample_env sample_opts sample_world)) ''c'' =
      Some \<lparr>content = ''7: Mon'' @ nl @ ''ok'' @ nl, mtime = 101, perms = 384\<rparr>"
    by (simp add: writing_run)
  have f0: "files sample_world ''c'' =
      Some \<lparr>content = ''5: s'' @ nl @ ''old'', mtime = 90, perms = 420\<rparr>"
    by (simp add: sample_world_def)
  have ch: "slurp ''c'' (snd (perl_main sample_env sample_opts sample_world)) \<noteq>
      slurp ''c'' sample_world"
    by (simp add: slurp_def fw f0)
  show ?thesis
    using owner_only_after_write [where e=sample_env and f="''c''" and data="''ok''"
        and w=sample_world and u="()" and ?w1.0="snd (writeCache sample_env ''c'' ''ok'' sample_world)"
        and opts=sample_opts and ?w0.0=sample_world and r="Inr ()"
        and w'="snd (perl_main sample_env sample_opts sample_world)" and ?w2.0=bare_world]
      pm o ch x p0 pf b0
    by (auto simp: c q n owner_rw_def)
qed

theorem created_with_umask_counterexample:
  "files bare_world ''c'' = None \<and>
   fst (spawnBurst failing_env sample_opts bare_world) =
     Inl (ascii (''spawnBurst() failed with status 1: bad'' @ nl @
                 ''command exited with nonzero status 256'')) \<and>
   files (snd (spawnBurst failing_env sample_opts bare_world)) ''c'' =
     Some \<lparr>content = [], mtime = 100, perms = 420\<rparr> \<and>
   owner_rw = 384"
proof -
  have fb: "fresh bare_world = bare_world"
    by (simp add: fresh_def bare_world_def)
  have e0: "errno failing_env = 0" "toString failing_env = ascii"
    by (simp_all add: failing_env_def sample_env_def)
  have pb: "pipe_out bare_world = []" "files bare_world ''c'' = None"
    by (simp_all add: bare_world_def)
  have sp: "spawn_perl failing_env sample_opts bare_world =
      (\<lparr>status = Some 1, stdout = [],
        stderr = ''bad'' @ nl @ ''command exited with nonzero status 256'' @ nl\<rparr>,
       snd (perl_main failing_env sample_opts bare_world))"
    by (simp add: spawn_perl_def fb bare_failing_run die_status_def e0 pb)
  have 2: "fst (spawnBurst failing_env sample_opts bare_world) =
     Inl (ascii (''spawnBurst() failed with status 1: bad'' @ nl @
                 ''command exited with nonzero status 256''))"
    using trim_ascii_bad
    by (simp add: spawnBurst_def sp processResult_def Let_def e0 show_status_def show_int_def
          show_nat_1 ascii_def)
  have 3: "files (snd (spawnBurst failing_env sample_opts bare_world)) ''c'' =
     Some \<lparr>content = [], mtime = 100, perms = 420\<rparr>"
    by (simp add: spawnBurst_def sp bare_failing_run)
  from 2 3 pb show ?thesis by (simp add: owner_rw_def)
qed




text \<open>
  C10. When the data file is non-empty and holds no newline, the program dies no later than
  in its first \<open>readCache\<close>: after compiling the validator it issues at most \<open>open\<close>, \<open>flock LOCK_SH\<close> and
  \<open>seek\<close> on the data file, never reaches the sidecar lock or the decision, and leaves every
  file as it was, so the next invocation meets the same file. The message is
  \<open>invalid format of\<close> the file whenever the validator compiles and no system call fails (a
  failing call kills the program with that call's message instead). Both wrappers then
  throw. A snapshot read from such a file never has the empty writer of the "no record"
  sentinel.
\<close>

theorem garbage_cache_is_fatal:
  assumes "files w (cacheFile opts) = Some d" and "content d \<noteq> []"
    and "CHR 0x0A \<notin> set (content d)"
  shows "(\<exists>msg. fst (perl_main e opts w) = Inl msg) \<and>
         files (snd (perl_main e opts w)) = files w \<and>
         (\<exists>evs. log (snd (perl_main e opts w)) = log w @ Qr (validator opts) # evs \<and>
            set evs \<subseteq> {Open ''+>>'' (cacheFile opts), Flock (cacheFile opts) LOCK_SH,
                            Seek (cacheFile opts)}) \<and>
         (\<forall>v. qr e (validator opts) = Inr v \<and> os_error e = (\<lambda>l ev. None) \<longrightarrow>
            perl_main e opts w =
              (Inl (''invalid format of '' @ cacheFile opts @ nl),
               w\<lparr>log := log w @ [Qr (validator opts), Open ''+>>'' (cacheFile opts),
                                   Flock (cacheFile opts) LOCK_SH, Seek (cacheFile opts)],
                   pipe_err := pipe_err w @ ''invalid format of '' @ cacheFile opts @ nl\<rparr>)) \<and>
         (\<exists>m. fst (spawnBurstSync e opts w) = Inl m) \<and>
         (\<exists>m. fst (spawnBurst e opts w) = Inl m) \<and>
         (\<forall>wr da ag w1. readCache e (cacheFile opts) w = (Inr (wr, da, ag), w1) \<longrightarrow> wr \<noteq> [])"
proof -
  have ff: "files (fresh w) (cacheFile opts) = Some d" using assms(1) by simp
  obtain msg where "fst (perl_main e opts (fresh w)) = Inl msg"
    using garbage_perl_main [OF ff assms(2,3)] by blast
  then have "perl_main e opts (fresh w) = (Inl msg, snd (perl_main e opts (fresh w)))"
    by (cases "perl_main e opts (fresh w)") simp
  then have ts: "(\<exists>m. fst (spawnBurstSync e opts w) = Inl m) \<and>
      (\<exists>m. fst (spawnBurst e opts w) = Inl m)"
    by (rule died_throws)
  have rs: "\<forall>wr da ag w1. readCache e (cacheFile opts) w = (Inr (wr, da, ag), w1) \<longrightarrow> wr \<noteq> []"
    using readCache_sentinel [OF assms(1), where e=e] assms(2) by auto
  show ?thesis
    using garbage_perl_main [OF assms] ts rs by blast
qed

theorem garbage_cache_is_fatal_witness:
  "perl_main sample_env sample_opts garbage_world =
     (Inl (''invalid format of c'' @ nl),
      garbage_world
        \<lparr>log := [Qr ''.+'', Open ''+>>'' ''c'', Flock ''c'' LOCK_SH, Seek ''c''],
         pipe_err := ''invalid format of c'' @ nl\<rparr>)"
proof -
  have f: "files garbage_world (cacheFile sample_opts) =
      Some \<lparr>content = ''garbage'', mtime = 90, perms = 384\<rparr>"
    by (simp add: garbage_world_def sample_opts_def)
  have c: "content \<lparr>content = ''garbage'', mtime = 90, perms = 384\<rparr> \<noteq> []"
    "CHR 0x0A \<notin> set (content \<lparr>content = ''garbage'', mtime = 90, perms = 384\<rparr>)"
    by simp_all
  have q: "qr sample_env (validator sample_opts) = Inr (\<lambda>t. t \<noteq> [])"
    "os_error sample_env = (\<lambda>l ev. None)"
    by (simp_all add: sample_env_def sample_opts_def sample_qr_def)
  show ?thesis
    using garbage_cache_is_fatal [OF f c, where e=sample_env] q
    by (simp add: sample_opts_def garbage_world_def)
qed

end
